theory Spec2Isabelle
  imports Complex_Main "HOL-Library.Sublist"
begin

section \<open>The waveform streaming pipeline of qseek/waveforms/squirrel.py\<close>

text \<open>
  The module holds a background task (\<open>SquirrelPrefetcher.prefetch_worker\<close>) that drains
  an asynchronous iterator of pyrocko batches into a bounded \<open>asyncio.Queue\<close>, and an
  asynchronous generator (\<open>PyrockoSquirrel.iter_batches\<close>) that takes the batches from
  that queue, cleans and classifies them and yields the good ones.

  Both run on one asyncio event loop: a task runs without interruption from one
  \<open>await\<close> that suspends it to the next. The model has one step function per task,
  taking the task from a suspension point to the next one, and a list of events that says
  in which order the event loop resumes the tasks, when the caller pulls from or closes
  the generator, and how much wall-clock time passes in between. Code between two
  suspension points takes no time in the model: the clock advances by \<open>Tick\<close> only.

  The iterator's \<open>__anext__\<close> and the generator's \<open>queue.get()\<close> count as suspension
  points every time they are reached; where asyncio would run on at once (an item is in the
  queue already), that is the event list in which the task's next resumption follows
  directly. \<open>queue.put\<close> suspends on a full queue only. The event lists so cover every
  order in which asyncio can run the two tasks.

  A \<open>datetime\<close> is an instant in microseconds, a \<open>timedelta\<close> a number of microseconds
  (the resolution Python gives both; their arithmetic is exact). Floats (pyrocko's
  timestamps, the byte rate) are reals: rounding is not modelled.

  Left out: log messages other than the one that reports the resolved span, the unused
  \<open>_load_queue\<close>, and \<open>queue.task_done()\<close>, which only counts down the queue's join
  counter, read by nothing in this module.
\<close>

subsection \<open>Data\<close>

type_synonym datetime = int
type_synonym timedelta = int

datatype error = ValueError string | ZeroDivisionError

text \<open>Modelled from the spec: a trace is an opaque payload with a byte size (the class is
  pyrocko's, the size what \<open>cumulative_bytes\<close> adds up).\<close>

datatype trace = Trace (nbytes: nat)

text \<open>\<open>pyrocko.squirrel.base.Batch\<close>: the fields \<open>iter_batches\<close> reads
  (\<open>traces\<close>, \<open>tmin\<close>, \<open>tmax\<close>, \<open>i\<close>, \<open>n\<close>).\<close>

record Batch =
  pb_traces :: "trace list"
  pb_tmin :: real
  pb_tmax :: real
  pb_i :: nat
  pb_n :: nat

text \<open>\<open>qseek.waveforms.base.WaveformBatch\<close>, with the fields the constructor call in
  \<open>iter_batches\<close> sets.\<close>

record WaveformBatch =
  traces :: "trace list"
  b_start_time :: datetime
  b_end_time :: datetime
  i_batch :: nat
  n_batches :: nat

text \<open>Modelled from the spec: \<open>WaveformBatch.duration\<close> is missing from the sources;
  the spec gives \<open>duration = end_time - start_time\<close>.\<close>

definition duration :: "WaveformBatch \<Rightarrow> timedelta" where
  "duration b = b_end_time b - b_start_time b"

text \<open>Modelled from the spec: \<open>WaveformBatch.cumulative_bytes\<close> is missing from the
  sources; the spec gives the sum of the per-trace byte sizes.\<close>

definition cumulative_bytes :: "WaveformBatch \<Rightarrow> nat" where
  "cumulative_bytes b = sum_list (map nbytes (traces b))"

text \<open>Modelled from the spec: \<open>WaveformBatch.is_empty\<close> is missing from the sources;
  the spec gives: true iff zero traces remain.\<close>

definition is_empty :: "WaveformBatch \<Rightarrow> bool" where
  "is_empty b = (traces b = [])"

text \<open>\<open>qseek.models.station.Stations\<close> is not among the sources. The model keeps what
  this module reads of it: \<open>get_all_nsl()\<close>, \<open>station_xmls\<close>, and the truth value
  Python gives the object in \<open>if not self._stations\<close>.\<close>

record Stations =
  truthy :: bool
  all_nsl :: "(string \<times> string \<times> string) list"
  station_xmls :: "string list"

record SquirrelStats =
  empty_batches :: nat
  short_batches :: nat
  time_per_batch :: timedelta
  bytes_per_seconds :: real
  queue_set :: bool

text \<open>The arguments of \<open>chopper_waveforms_async\<close>. \<open>tmin\<close> and \<open>tmax\<close> are kept as
  instants and \<open>tinc\<close>, \<open>tpad\<close> as durations, before \<open>.timestamp()\<close> and
  \<open>.total_seconds()\<close> turn them into floats.\<close>

record request =
  r_tmin :: datetime
  r_tmax :: datetime
  r_tinc :: timedelta
  r_tpad :: timedelta
  want_incomplete :: bool
  codes :: "(string \<times> string \<times> string \<times> string) list"

text \<open>What the asynchronous iterator does each time the worker asks it for the next
  batch: it yields one or raises. The end of the list is \<open>StopAsyncIteration\<close>.\<close>

datatype src_event = Yield Batch | Raise

text \<open>Everything outside this module that it calls: \<open>to_datetime\<close> of \<open>qseek.utils\<close>,
  \<open>WaveformBatch.clean_traces\<close> (as a function on the trace list it changes in place),
  and the retrieval engine, \<open>Squirrel.get_time_span\<close> and
  \<open>Squirrel.chopper_waveforms_async\<close>.\<close>

record env =
  to_datetime :: "real \<Rightarrow> datetime"
  clean_traces :: "trace list \<Rightarrow> trace list"
  get_time_span :: "real \<times> real"
  chopper_waveforms_async :: "request \<Rightarrow> src_event list"

text \<open>The calls that leave the module, in the order they are made.\<close>

datatype io_event =
    InitSquirrel
  | GetTimeSpan
  | LogSearchSpan datetime datetime
  | ChopperWaveforms request
  | CreateTask nat

subsection \<open>SquirrelPrefetcher\<close>

text \<open>Where the worker task stands: created and not yet run; suspended in the
  iterator's \<open>__anext__\<close>; suspended in \<open>queue.put\<close> on a full queue with the item it
  holds; returned; ended by an exception.\<close>

datatype task_state = Created | AwaitNext | AwaitPut "Batch option" | Finished | Crashed

text \<open>The object's attributes, the local \<open>start\<close> of \<open>prefetch_worker\<close>, and three
  fields that only observe: \<open>put_log\<close> lists every item ever put into the queue,
  \<open>fetch_requested\<close> is the instant the worker last began to wait for the iterator,
  \<open>fetch_latency\<close> how long the last completed fetch made it wait.\<close>

record SquirrelPrefetcher =
  iterator :: "src_event list"
  queue :: "Batch option list"
  maxsize :: nat
  load_time :: timedelta
  fetched_batches :: nat
  task :: task_state
  start :: datetime
  put_log :: "Batch option list"
  fetch_requested :: datetime
  fetch_latency :: timedelta

definition SquirrelPrefetcher_init :: "src_event list \<Rightarrow> nat \<Rightarrow> SquirrelPrefetcher" where
  "SquirrelPrefetcher_init it queue_size =
     \<lparr>iterator = it, queue = [], maxsize = queue_size, load_time = 0,
      fetched_batches = 0, task = Created, start = 0, put_log = [],
      fetch_requested = 0, fetch_latency = 0\<rparr>"

text \<open>\<open>asyncio.Queue.full\<close>: a queue with \<open>maxsize <= 0\<close> is never full.\<close>

definition full :: "SquirrelPrefetcher \<Rightarrow> bool" where
  "full p = (0 < maxsize p \<and> maxsize p \<le> length (queue p))"

definition put_nowait :: "Batch option \<Rightarrow> SquirrelPrefetcher \<Rightarrow> SquirrelPrefetcher" where
  "put_nowait item p = p\<lparr>queue := queue p @ [item], put_log := put_log p @ [item]\<rparr>"

text \<open>What follows a completed \<open>put\<close>: after a batch the loop asks the iterator for the
  next one, after the terminator the coroutine returns.\<close>

definition after_put :: "datetime \<Rightarrow> Batch option \<Rightarrow> SquirrelPrefetcher \<Rightarrow> SquirrelPrefetcher" where
  "after_put now item p =
     (case item of
        Some b \<Rightarrow> p\<lparr>task := AwaitNext, fetch_requested := now\<rparr>
      | None \<Rightarrow> p\<lparr>task := Finished\<rparr>)"

text \<open>\<open>await self.queue.put(item)\<close>: on a full queue the task suspends holding the item,
  otherwise the item goes in at once and the task runs on.\<close>

definition queue_put :: "datetime \<Rightarrow> Batch option \<Rightarrow> SquirrelPrefetcher \<Rightarrow> SquirrelPrefetcher" where
  "queue_put now item p =
     (if full p then p\<lparr>task := AwaitPut item\<rparr> else after_put now item (put_nowait item p))"

text \<open>One resumption of \<open>prefetch_worker\<close> at clock reading \<open>now\<close>, up to its next
  suspension.\<close>

definition prefetch_worker :: "datetime \<Rightarrow> SquirrelPrefetcher \<Rightarrow> SquirrelPrefetcher" where
  "prefetch_worker now p =
     (case task p of
        Created \<Rightarrow> p\<lparr>start := now, task := AwaitNext, fetch_requested := now\<rparr>
      | AwaitNext \<Rightarrow>
          (case iterator p of
             [] \<Rightarrow> queue_put now None p
           | Raise # rest \<Rightarrow> p\<lparr>iterator := rest, task := Crashed\<rparr>
           | Yield batch # rest \<Rightarrow>
               queue_put now (Some batch)
                 (p\<lparr>iterator := rest,
                    load_time := now - start p,
                    fetched_batches := fetched_batches p + 1,
                    start := now,
                    fetch_latency := now - fetch_requested p\<rparr>))
      | AwaitPut item \<Rightarrow> (if full p then p else after_put now item (put_nowait item p))
      | Finished \<Rightarrow> p
      | Crashed \<Rightarrow> p)"

subsection \<open>PyrockoSquirrel\<close>

record PyrockoSquirrel =
  start_time :: "datetime option"
  end_time :: "datetime option"
  channel_selector :: string
  async_prefetch_batches :: nat
  squirrel :: bool
  stations :: "Stations option"
  stats :: SquirrelStats

text \<open>The arguments of one call of \<open>iter_batches\<close>.\<close>

record call_args =
  window_increment :: timedelta
  window_padding :: timedelta
  arg_start_time :: "datetime option"
  arg_end_time :: "datetime option"
  min_length :: "timedelta option"

definition validate_model :: "PyrockoSquirrel \<Rightarrow> error + PyrockoSquirrel" where
  "validate_model self =
     (case (start_time self, end_time self) of
        (Some s, Some e) \<Rightarrow>
          if s > e then Inl (ValueError ''start_time must be before end_time'') else Inr self
      | _ \<Rightarrow> Inr self)"

text \<open>\<open>not self._stations\<close>: true for \<open>None\<close> and for an object Python takes as false.\<close>

definition not_stations :: "PyrockoSquirrel \<Rightarrow> bool" where
  "not_stations self = (case stations self of None \<Rightarrow> True | Some st \<Rightarrow> \<not> truthy st)"

text \<open>\<open>x or y\<close> where \<open>x\<close> is \<open>None\<close> or a datetime (a datetime is never false).\<close>

definition or_else :: "datetime option \<Rightarrow> datetime \<Rightarrow> datetime" where
  "or_else x y = (case x of Some t \<Rightarrow> t | None \<Rightarrow> y)"

definition resolved_start :: "env \<Rightarrow> call_args \<Rightarrow> PyrockoSquirrel \<Rightarrow> datetime" where
  "resolved_start e a self =
     or_else (arg_start_time a) (or_else (start_time self) (to_datetime e (fst (get_time_span e))))"

definition resolved_end :: "env \<Rightarrow> call_args \<Rightarrow> PyrockoSquirrel \<Rightarrow> datetime" where
  "resolved_end e a self =
     or_else (arg_end_time a) (or_else (end_time self) (to_datetime e (snd (get_time_span e))))"

definition chopper_request :: "env \<Rightarrow> call_args \<Rightarrow> PyrockoSquirrel \<Rightarrow> request" where
  "chopper_request e a self =
     \<lparr>r_tmin = resolved_start e a self + window_padding a,
      r_tmax = resolved_end e a self - window_padding a,
      r_tinc = window_increment a,
      r_tpad = window_padding a,
      want_incomplete = False,
      codes = (case stations self of
                 None \<Rightarrow> []
               | Some st \<Rightarrow> map (\<lambda>(nw, sta, loc). (nw, sta, loc, channel_selector self)) (all_nsl st))\<rparr>"

text \<open>Where the generator stands: not started; suspended in \<open>queue.get\<close>; suspended at
  \<open>yield batch\<close>; returned (\<open>StopAsyncIteration\<close>); ended by an exception; closed by its
  caller.\<close>

datatype gen_state = NotStarted | AwaitGet | AtYield | Exhausted | Raised error | Closed

record pipeline =
  clock :: datetime
  self :: PyrockoSquirrel
  prefetcher :: "SquirrelPrefetcher option"
  gen :: gen_state
  loop_start :: datetime
  yielded :: "WaveformBatch list"
  io_log :: "io_event list"

definition new_pipeline :: "PyrockoSquirrel \<Rightarrow> datetime \<Rightarrow> pipeline" where
  "new_pipeline p t0 =
     \<lparr>clock = t0, self = p, prefetcher = None, gen = NotStarted, loop_start = 0,
      yielded = [], io_log = []\<rparr>"

text \<open>\<open>get_squirrel\<close>: the engine is built, and the waveform directories and station
  files are read, on the first call only.\<close>

definition get_squirrel :: "pipeline \<Rightarrow> pipeline" where
  "get_squirrel s =
     (if \<not> squirrel (self s)
      then s\<lparr>io_log := io_log s @ [InitSquirrel], self := (self s)\<lparr>squirrel := True\<rparr>\<rparr>
      else s)"

text \<open>\<open>iter_batches\<close> from its first line to the first \<open>await prefetcher.queue.get()\<close>.\<close>

definition iter_batches_start :: "env \<Rightarrow> call_args \<Rightarrow> pipeline \<Rightarrow> pipeline" where
  "iter_batches_start e a s =
     (if not_stations (self s)
      then s\<lparr>gen := Raised (ValueError ''no stations provided. has prepare() been called?'')\<rparr>
      else
        let s1 = get_squirrel s;
            rq = chopper_request e a (self s1);
            pf = SquirrelPrefetcher_init (chopper_waveforms_async e rq)
                   (async_prefetch_batches (self s1))
        in s1\<lparr>io_log := io_log s1 @
                 [GetTimeSpan,
                  LogSearchSpan (resolved_start e a (self s1)) (resolved_end e a (self s1)),
                  ChopperWaveforms rq,
                  CreateTask (async_prefetch_batches (self s1))],
               prefetcher := Some pf,
               self := (self s1)\<lparr>stats := (stats (self s1))\<lparr>queue_set := True\<rparr>\<rparr>,
               loop_start := clock s1,
               gen := AwaitGet\<rparr>)"

definition total_seconds :: "timedelta \<Rightarrow> real" where
  "total_seconds d = real_of_int d / 1000000"

text \<open>Python's \<open>/\<close> with a float divisor.\<close>

definition truediv :: "real \<Rightarrow> real \<Rightarrow> error + real" where
  "truediv x y = (if y = 0 then Inl ZeroDivisionError else Inr (x / y))"

text \<open>The construction of the \<open>WaveformBatch\<close> and \<open>batch.clean_traces()\<close>.\<close>

definition to_batch :: "env \<Rightarrow> Batch \<Rightarrow> WaveformBatch" where
  "to_batch e pyrocko_batch =
     \<lparr>traces = clean_traces e (pb_traces pyrocko_batch),
      b_start_time = to_datetime e (pb_tmin pyrocko_batch),
      b_end_time = to_datetime e (pb_tmax pyrocko_batch),
      i_batch = pb_i pyrocko_batch,
      n_batches = pb_n pyrocko_batch\<rparr>"

text \<open>\<open>min_length and batch.duration < min_length\<close>: a \<open>timedelta\<close> of zero is false.\<close>

definition too_short :: "timedelta option \<Rightarrow> WaveformBatch \<Rightarrow> bool" where
  "too_short ml batch = (case ml of None \<Rightarrow> False | Some m \<Rightarrow> m \<noteq> 0 \<and> duration batch < m)"

definition set_stats :: "SquirrelStats \<Rightarrow> pipeline \<Rightarrow> pipeline" where
  "set_stats st s = s\<lparr>self := (self s)\<lparr>stats := st\<rparr>\<rparr>"

text \<open>The body of the \<open>while True\<close> loop once \<open>queue.get()\<close> has returned \<open>item\<close>, up to
  the next suspension; \<open>lt\<close> is \<open>prefetcher.load_time\<close> as it is read then. \<open>continue\<close>
  leads to \<open>start = datetime_now()\<close> and the next \<open>queue.get()\<close>.\<close>

definition loop_body :: "env \<Rightarrow> call_args \<Rightarrow> timedelta \<Rightarrow> Batch option \<Rightarrow> pipeline \<Rightarrow> pipeline" where
  "loop_body e a lt item s =
     (case item of
        None \<Rightarrow> s\<lparr>gen := Exhausted\<rparr>
      | Some pyrocko_batch \<Rightarrow>
          let batch = to_batch e pyrocko_batch;
              st1 = (stats (self s))\<lparr>time_per_batch := clock s - loop_start s\<rparr>
          in (case truediv (real (cumulative_bytes batch)) (total_seconds lt) of
                Inl err \<Rightarrow> (set_stats st1 s)\<lparr>gen := Raised err\<rparr>
              | Inr rate \<Rightarrow>
                  let st2 = st1\<lparr>bytes_per_seconds := rate\<rparr>
                  in if is_empty batch
                     then (set_stats (st2\<lparr>empty_batches := empty_batches st2 + 1\<rparr>) s)
                            \<lparr>loop_start := clock s, gen := AwaitGet\<rparr>
                     else if too_short (min_length a) batch
                     then (set_stats (st2\<lparr>short_batches := short_batches st2 + 1\<rparr>) s)
                            \<lparr>loop_start := clock s, gen := AwaitGet\<rparr>
                     else (set_stats st2 s)\<lparr>yielded := yielded s @ [batch], gen := AtYield\<rparr>))"

subsection \<open>The event loop\<close>

text \<open>
  \<open>Tick d\<close>: \<open>d\<close> microseconds pass. \<open>WakeProducer\<close>: the event loop resumes the worker
  task (the iterator delivers, or a blocked \<open>put\<close> is tried again). \<open>WakeConsumer\<close>: the
  generator's \<open>queue.get()\<close> is tried. \<open>Pull\<close>: the caller asks the generator for the
  next batch. \<open>Close\<close>: the caller closes the generator, or the task that iterates it is
  cancelled: the exception is thrown in at the suspension point, and \<open>iter_batches\<close> has
  no \<open>try\<close> around any of them, so the generator ends there and runs nothing more. An event that
  is not enabled leaves the state as it is.
\<close>

datatype event = Tick nat | WakeProducer | WakeConsumer | Pull | Close

definition wake_producer :: "pipeline \<Rightarrow> pipeline" where
  "wake_producer s =
     (case prefetcher s of
        None \<Rightarrow> s
      | Some p \<Rightarrow> s\<lparr>prefetcher := Some (prefetch_worker (clock s) p)\<rparr>)"

definition wake_consumer :: "env \<Rightarrow> call_args \<Rightarrow> pipeline \<Rightarrow> pipeline" where
  "wake_consumer e a s =
     (if gen s = AwaitGet
      then (case prefetcher s of
              None \<Rightarrow> s
            | Some p \<Rightarrow>
                (case queue p of
                   [] \<Rightarrow> s
                 | item # rest \<Rightarrow>
                     loop_body e a (load_time p) item (s\<lparr>prefetcher := Some (p\<lparr>queue := rest\<rparr>)\<rparr>)))
      else s)"

definition pull :: "env \<Rightarrow> call_args \<Rightarrow> pipeline \<Rightarrow> pipeline" where
  "pull e a s =
     (case gen s of
        NotStarted \<Rightarrow> iter_batches_start e a s
      | AtYield \<Rightarrow> s\<lparr>loop_start := clock s, gen := AwaitGet\<rparr>
      | _ \<Rightarrow> s)"

definition close :: "pipeline \<Rightarrow> pipeline" where
  "close s =
     (case gen s of
        NotStarted \<Rightarrow> s\<lparr>gen := Closed\<rparr>
      | AwaitGet \<Rightarrow> s\<lparr>gen := Closed\<rparr>
      | AtYield \<Rightarrow> s\<lparr>gen := Closed\<rparr>
      | _ \<Rightarrow> s)"

fun step :: "env \<Rightarrow> call_args \<Rightarrow> pipeline \<Rightarrow> event \<Rightarrow> pipeline" where
  "step e a s (Tick d) = s\<lparr>clock := clock s + int d\<rparr>"
| "step e a s WakeProducer = wake_producer s"
| "step e a s WakeConsumer = wake_consumer e a s"
| "step e a s Pull = pull e a s"
| "step e a s Close = close s"

definition run :: "env \<Rightarrow> call_args \<Rightarrow> event list \<Rightarrow> pipeline \<Rightarrow> pipeline" where
  "run e a evs s = foldl (step e a) s evs"

subsection \<open>Invariants\<close>

text \<open>A started stream of a prepared provider has raised nothing but the
  \<open>ZeroDivisionError\<close> of the rate computation.\<close>

definition no_value_error :: "pipeline \<Rightarrow> bool" where
  "no_value_error s =
     (\<not> not_stations (self s) \<and>
      (case gen s of Raised err \<Rightarrow> err = ZeroDivisionError | _ \<Rightarrow> True))"

text \<open>A batch that passes both checks of the loop.\<close>

definition accepted :: "call_args \<Rightarrow> WaveformBatch \<Rightarrow> bool" where
  "accepted a b = (\<not> is_empty b \<and> \<not> too_short (min_length a) b)"

text \<open>What the worker is to put into the queue for a source: its batches in order, then
  the terminator when the source ends, and nothing from the point where it raises.\<close>

fun outcome :: "src_event list \<Rightarrow> Batch option list" where
  "outcome [] = [None]"
| "outcome (Yield b # rest) = Some b # outcome rest"
| "outcome (Raise # rest) = []"

text \<open>The item a suspended \<open>put\<close> holds, and the items the worker has yet to take from
  its iterator; with \<open>put_log\<close> they make up everything the worker puts or will put.\<close>

definition pending :: "SquirrelPrefetcher \<Rightarrow> Batch option list" where
  "pending p = (case task p of AwaitPut item \<Rightarrow> [item] | _ \<Rightarrow> [])"

definition to_come :: "SquirrelPrefetcher \<Rightarrow> Batch option list" where
  "to_come p =
     (case task p of
        Created \<Rightarrow> outcome (iterator p)
      | AwaitNext \<Rightarrow> outcome (iterator p)
      | AwaitPut item \<Rightarrow> (case item of Some b \<Rightarrow> outcome (iterator p) | None \<Rightarrow> [])
      | Finished \<Rightarrow> []
      | Crashed \<Rightarrow> [])"

definition worker_trace :: "SquirrelPrefetcher \<Rightarrow> Batch option list" where
  "worker_trace p = put_log p @ pending p @ to_come p"

text \<open>The batches among queue items.\<close>

fun batches_of :: "Batch option list \<Rightarrow> Batch list" where
  "batches_of [] = []"
| "batches_of (None # rest) = batches_of rest"
| "batches_of (Some b # rest) = b # batches_of rest"

text \<open>The worker follows \<open>outcome\<close>, and it has returned exactly when the terminator is
  in the queue's history.\<close>

definition worker_inv :: "src_event list \<Rightarrow> SquirrelPrefetcher \<Rightarrow> bool" where
  "worker_inv src p =
     (worker_trace p = outcome src \<and> (task p = Finished \<longleftrightarrow> None \<in> set (put_log p)))"

text \<open>What was put is what the generator has taken followed by what the queue holds, and
  the yielded batches are a subsequence of the taken ones.\<close>

definition consumer_inv :: "env \<Rightarrow> pipeline \<Rightarrow> SquirrelPrefetcher \<Rightarrow> bool" where
  "consumer_inv e s p =
     (gen s \<noteq> NotStarted \<and>
      (\<exists>consumed. put_log p = consumed @ queue p \<and>
         subseq (yielded s) (map (to_batch e) (batches_of consumed)) \<and>
         (gen s = Exhausted \<longrightarrow> None \<in> set consumed)))"

definition stream_inv :: "env \<Rightarrow> call_args \<Rightarrow> src_event list \<Rightarrow> pipeline \<Rightarrow> bool" where
  "stream_inv e a src s =
     (case prefetcher s of
        None \<Rightarrow>
          yielded s = [] \<and> gen s \<noteq> AwaitGet \<and> gen s \<noteq> AtYield \<and> gen s \<noteq> Exhausted \<and>
          (gen s = NotStarted \<longrightarrow> chopper_waveforms_async e (chopper_request e a (self s)) = src)
      | Some p \<Rightarrow> worker_inv src p \<and> consumer_inv e s p)"

text \<open>The generator waits in \<open>queue.get()\<close> (or was closed) on an empty queue whose
  worker has crashed.\<close>

definition stalled :: "pipeline \<Rightarrow> bool" where
  "stalled s =
     ((gen s = AwaitGet \<or> gen s = Closed) \<and>
      (case prefetcher s of None \<Rightarrow> False | Some pf \<Rightarrow> task pf = Crashed \<and> queue pf = []))"

text \<open>The generator was closed when the worker was in state \<open>pf\<close>: the queue has
  lost none of the items it held then. A worker is blocked when it is suspended in
  \<open>queue.put\<close> on a full queue.\<close>

definition abandoned :: "SquirrelPrefetcher \<Rightarrow> pipeline \<Rightarrow> bool" where
  "abandoned pf s =
     (gen s = Closed \<and>
      (case prefetcher s of None \<Rightarrow> False | Some pf' \<Rightarrow> prefix (queue pf) (queue pf')))"

definition blocked :: "SquirrelPrefetcher \<Rightarrow> bool" where
  "blocked pf = (full pf \<and> (case task pf of AwaitPut item \<Rightarrow> True | _ \<Rightarrow> False))"

subsection \<open>Concrete inputs\<close>

text \<open>An environment whose iterator behaves as \<open>src\<close> says, whose \<open>to_datetime\<close> turns
  seconds into microseconds and whose \<open>clean_traces\<close> drops the traces without data.\<close>

definition ex_env :: "src_event list \<Rightarrow> env" where
  "ex_env src =
     \<lparr>to_datetime = (\<lambda>t. \<lfloor>t * 1000000\<rfloor>),
      clean_traces = filter (\<lambda>t. nbytes t \<noteq> 0),
      get_time_span = (0, 100),
      chopper_waveforms_async = (\<lambda>rq. src)\<rparr>"

definition ex_stations :: Stations where
  "ex_stations = \<lparr>truthy = True, all_nsl = [(''XX'', ''STA'', '''')], station_xmls = []\<rparr>"

definition ex_stats :: SquirrelStats where
  "ex_stats = \<lparr>empty_batches = 0, short_batches = 0, time_per_batch = 0,
      bytes_per_seconds = 0, queue_set = False\<rparr>"

definition ex_provider :: "Stations option \<Rightarrow> nat \<Rightarrow> PyrockoSquirrel" where
  "ex_provider st qs =
     \<lparr>start_time = None, end_time = None, channel_selector = ''*'',
      async_prefetch_batches = qs, squirrel = False, stations = st, stats = ex_stats\<rparr>"

definition ex_args :: "datetime option \<Rightarrow> datetime option \<Rightarrow> timedelta option \<Rightarrow> call_args" where
  "ex_args st en ml = \<lparr>window_increment = 10000000, window_padding = 1000000,
      arg_start_time = st, arg_end_time = en, min_length = ml\<rparr>"

definition ex_batch :: "nat \<Rightarrow> trace list \<Rightarrow> real \<Rightarrow> real \<Rightarrow> Batch" where
  "ex_batch k trs t0 t1 = \<lparr>pb_traces = trs, pb_tmin = t0, pb_tmax = t1, pb_i = k, pb_n = 3\<rparr>"

text \<open>A batch with one trace of eight bytes that covers ten seconds; one like it that
  covers five seconds; one of five seconds whose only trace has no data, so that cleaning
  leaves it without traces; sources of two, three and four good batches; a run over a source, from a
  prepared provider with the given queue size at clock zero, with the given
  \<open>min_length\<close>.\<close>

definition ex_good :: "nat \<Rightarrow> Batch" where
  "ex_good k = ex_batch k [Trace 8] 0 10"

definition ex_short :: Batch where
  "ex_short = ex_batch 0 [Trace 8] 0 5"

definition ex_empty :: Batch where
  "ex_empty = ex_batch 0 [Trace 0] 0 5"

definition ex_two :: "src_event list" where
  "ex_two = [Yield (ex_good 0), Yield (ex_good 1)]"

definition ex_three :: "src_event list" where
  "ex_three = [Yield (ex_good 0), Yield (ex_good 1), Yield (ex_good 2)]"

definition ex_four :: "src_event list" where
  "ex_four = [Yield (ex_good 0), Yield (ex_good 1), Yield (ex_good 2), Yield (ex_good 3)]"

definition ex_run :: "src_event list \<Rightarrow> nat \<Rightarrow> timedelta option \<Rightarrow> event list \<Rightarrow> pipeline" where
  "ex_run src qs ml evs =
     run (ex_env src) (ex_args None None ml) evs (new_pipeline (ex_provider (Some ex_stations) qs) 0)"

section \<open>Properties\<close>

lemmas worker_defs = prefetch_worker_def queue_put_def after_put_def put_nowait_def full_def
  SquirrelPrefetcher_init_def
lemmas start_defs = iter_batches_start_def get_squirrel_def not_stations_def chopper_request_def
  resolved_start_def resolved_end_def or_else_def
lemmas body_defs = loop_body_def to_batch_def truediv_def total_seconds_def too_short_def
  set_stats_def is_empty_def duration_def cumulative_bytes_def
lemmas event_defs = run_def wake_producer_def wake_consumer_def pull_def close_def new_pipeline_def
lemmas ex_defs = ex_env_def ex_stations_def ex_stats_def ex_provider_def ex_args_def ex_batch_def
  ex_good_def ex_short_def ex_empty_def ex_two_def ex_three_def ex_four_def ex_run_def

subsection \<open>The stations check\<close>

lemma truediv_error: "truediv x y = Inl err \<Longrightarrow> err = ZeroDivisionError"
  by (simp add: truediv_def split: if_splits)

lemma step_not_prepared:
  assumes "prefetcher s = None" "gen s \<noteq> AwaitGet" "gen s \<noteq> AtYield" "not_stations (self s)"
  shows "prefetcher (step e a s ev) = None \<and> gen (step e a s ev) \<noteq> AwaitGet \<and>
         gen (step e a s ev) \<noteq> AtYield \<and> not_stations (self (step e a s ev)) \<and>
         io_log (step e a s ev) = io_log s"
  using assms
  by (cases ev)
     (auto simp: wake_producer_def wake_consumer_def pull_def close_def iter_batches_start_def
           split: gen_state.splits)

lemma run_not_prepared:
  assumes "prefetcher s = None" "gen s \<noteq> AwaitGet" "gen s \<noteq> AtYield" "not_stations (self s)"
  shows "prefetcher (run e a evs s) = None \<and> io_log (run e a evs s) = io_log s"
  using assms
proof (induction evs arbitrary: s)
  case Nil
  then show ?case by (simp add: run_def)
next
  case (Cons ev evs)
  have "prefetcher (run e a evs (step e a s ev)) = None \<and>
        io_log (run e a evs (step e a s ev)) = io_log (step e a s ev)"
    using step_not_prepared[OF Cons.prems, of e a ev] by (intro Cons.IH) simp_all
  then show ?case
    using step_not_prepared[OF Cons.prems, of e a ev] by (simp add: run_def)
qed

lemma loop_body_no_value_error:
  "no_value_error s \<Longrightarrow> no_value_error (loop_body e a lt item s)"
  by (auto simp: no_value_error_def loop_body_def set_stats_def not_stations_def Let_def
       dest: truediv_error split: option.splits sum.splits)

lemma step_no_value_error:
  "no_value_error s \<Longrightarrow> no_value_error (step e a s ev)"
proof (cases ev)
  case WakeConsumer
  assume inv: "no_value_error s"
  have "\<And>p rest. no_value_error (s\<lparr>prefetcher := Some (p\<lparr>queue := rest\<rparr>)\<rparr>)"
    using inv by (simp add: no_value_error_def)
  then show ?thesis using inv WakeConsumer
    by (auto simp: wake_consumer_def intro: loop_body_no_value_error split: option.splits list.splits)
qed (auto simp: no_value_error_def wake_producer_def pull_def close_def iter_batches_start_def
       get_squirrel_def not_stations_def Let_def
       split: gen_state.splits option.splits)

lemma run_no_value_error:
  "no_value_error s \<Longrightarrow> no_value_error (run e a evs s)"
  by (induction evs arbitrary: s) (simp_all add: run_def step_no_value_error)

text \<open>
  C8. When no stations are bound (\<open>_stations\<close> is \<open>None\<close>, as before \<open>prepare()\<close>, or
  an object Python takes as false), the first pull raises the \<open>ValueError\<close> of the
  stations check and changes nothing else: nothing has been asked of the engine, no task
  exists, and no later event makes the module do any I/O. When stations are bound, the
  first pull reaches \<open>queue.get()\<close> and that error is never raised.
\<close>

theorem not_prepared_fails_before_any_io:
  "(not_stations p \<longrightarrow>
      pull e a (new_pipeline p t0) =
        (new_pipeline p t0)\<lparr>gen := Raised (ValueError ''no stations provided. has prepare() been called?'')\<rparr>
      \<and> io_log (run e a evs (new_pipeline p t0)) = []
      \<and> prefetcher (run e a evs (new_pipeline p t0)) = None)
   \<and> (\<not> not_stations p \<longrightarrow>
      gen (pull e a (new_pipeline p t0)) = AwaitGet
      \<and> gen (run e a evs (new_pipeline p t0)) \<noteq>
          Raised (ValueError ''no stations provided. has prepare() been called?''))"
proof (intro conjI impI)
  assume np: "not_stations p"
  show "pull e a (new_pipeline p t0) =
        (new_pipeline p t0)\<lparr>gen := Raised (ValueError ''no stations provided. has prepare() been called?'')\<rparr>"
    using np by (simp add: pull_def new_pipeline_def iter_batches_start_def)
  have "prefetcher (run e a evs (new_pipeline p t0)) = None \<and>
        io_log (run e a evs (new_pipeline p t0)) = io_log (new_pipeline p t0)"
    using np by (intro run_not_prepared) (simp_all add: new_pipeline_def)
  then show "io_log (run e a evs (new_pipeline p t0)) = []"
    and "prefetcher (run e a evs (new_pipeline p t0)) = None"
    by (simp_all add: new_pipeline_def)
next
  assume pr: "\<not> not_stations p"
  show "gen (pull e a (new_pipeline p t0)) = AwaitGet"
    using pr by (simp add: pull_def new_pipeline_def iter_batches_start_def Let_def)
  have "no_value_error (run e a evs (new_pipeline p t0))"
    using pr by (intro run_no_value_error) (simp add: no_value_error_def new_pipeline_def)
  then show "gen (run e a evs (new_pipeline p t0)) \<noteq>
          Raised (ValueError ''no stations provided. has prepare() been called?'')"
    by (auto simp: no_value_error_def)
qed

theorem not_prepared_fails_before_any_io_witness:
  "stations (ex_provider None 1) = None
   \<and> gen (pull (ex_env []) (ex_args None None None) (new_pipeline (ex_provider None 1) 0)) =
       Raised (ValueError ''no stations provided. has prepare() been called?'')
   \<and> io_log (run (ex_env []) (ex_args None None None) [Pull, WakeProducer, WakeConsumer, Pull]
       (new_pipeline (ex_provider None 1) 0)) = []
   \<and> truthy ex_stations
   \<and> gen (pull (ex_env []) (ex_args None None None)
        (new_pipeline (ex_provider (Some ex_stations) 1) 0)) = AwaitGet"
  using not_prepared_fails_before_any_io
          [of "ex_provider None 1" "ex_env []" "ex_args None None None" 0
              "[Pull, WakeProducer, WakeConsumer, Pull]"]
        not_prepared_fails_before_any_io
          [of "ex_provider (Some ex_stations) 1" "ex_env []" "ex_args None None None" 0 "[]"]
  by (simp add: not_stations_def ex_provider_def ex_stations_def)

lemma io_log_first_pull:
  "\<not> not_stations (self s) \<Longrightarrow> gen s = NotStarted \<Longrightarrow>
   io_log (pull e a s) = io_log (get_squirrel s) @
      [GetTimeSpan,
       LogSearchSpan (resolved_start e a (self s)) (resolved_end e a (self s)),
       ChopperWaveforms (chopper_request e a (self s)),
       CreateTask (async_prefetch_batches (self s))]"
  by (simp add: pull_def iter_batches_start_def Let_def get_squirrel_def chopper_request_def
        resolved_start_def resolved_end_def split: option.splits)

subsection \<open>The time span\<close>

text \<open>
  C4 (amended). On the first pull of a prepared provider the resolved start is the caller's
  \<open>start_time\<close> if given, else the configured one if set, else the engine's reported
  minimum turned into a datetime, and likewise for the end; the request sent to the engine
  is padded from these. \<open>get_time_span\<close> is called on every first pull, before the
  span is resolved, whether or not its result is used.
\<close>

theorem time_span_precedence:
  assumes "\<not> not_stations (self s)" and "gen s = NotStarted"
  shows "io_log (pull e a s) = io_log (get_squirrel s) @
           [GetTimeSpan,
            LogSearchSpan (resolved_start e a (self s)) (resolved_end e a (self s)),
            ChopperWaveforms (chopper_request e a (self s)),
            CreateTask (async_prefetch_batches (self s))]
       \<and> r_tmin (chopper_request e a (self s)) = resolved_start e a (self s) + window_padding a
       \<and> r_tmax (chopper_request e a (self s)) = resolved_end e a (self s) - window_padding a
       \<and> resolved_start e a (self s) =
           (case arg_start_time a of
              Some t \<Rightarrow> t
            | None \<Rightarrow> (case start_time (self s) of
                         Some t \<Rightarrow> t
                       | None \<Rightarrow> to_datetime e (fst (get_time_span e))))
       \<and> resolved_end e a (self s) =
           (case arg_end_time a of
              Some t \<Rightarrow> t
            | None \<Rightarrow> (case end_time (self s) of
                         Some t \<Rightarrow> t
                       | None \<Rightarrow> to_datetime e (snd (get_time_span e))))"
  using io_log_first_pull[OF assms]
  by (simp add: chopper_request_def resolved_start_def resolved_end_def or_else_def)

theorem time_span_precedence_witness:
  "io_log (pull (ex_env []) (ex_args (Some 5000000) None None)
      (new_pipeline ((ex_provider (Some ex_stations) 1)\<lparr>start_time := Some 7000000, end_time := Some 50000000\<rparr>) 0))
   = [InitSquirrel, GetTimeSpan, LogSearchSpan 5000000 50000000,
       ChopperWaveforms
        \<lparr>r_tmin = 6000000, r_tmax = 49000000, r_tinc = 10000000,
           r_tpad = 1000000, want_incomplete = False,
           codes = [(''XX'', ''STA'', [], ''*'')]\<rparr>,
       CreateTask 1]"
  using time_span_precedence
     [of "new_pipeline ((ex_provider (Some ex_stations) 1)\<lparr>start_time := Some 7000000, end_time := Some 50000000\<rparr>) 0"
         "ex_env []" "ex_args (Some 5000000) None None"]
  by (simp add: start_defs new_pipeline_def ex_defs)

text \<open>C4 as stated fails: with both bounds given by the caller the engine's extent is
  queried all the same.\<close>

theorem time_span_always_queried_counterexample:
  "arg_start_time (ex_args (Some 5000000) (Some 60000000) None) = Some 5000000
   \<and> arg_end_time (ex_args (Some 5000000) (Some 60000000) None) = Some 60000000
   \<and> GetTimeSpan \<in> set (io_log (pull (ex_env []) (ex_args (Some 5000000) (Some 60000000) None)
        (new_pipeline (ex_provider (Some ex_stations) 1) 0)))"
  by (simp add: start_defs event_defs ex_defs)

text \<open>
  C9 (amended). The order of start and end is checked by \<open>_validate_model\<close> alone, on the
  configured bounds: it raises \<open>ValueError\<close> when both are set and the start is after the
  end, and passes when the start is before the end or a bound is not set. \<open>iter_batches\<close>
  makes no check of the resolved span: with stations bound the first pull sends the request
  to the engine and reaches \<open>queue.get()\<close> whatever the order of the resolved bounds, and
  no event ever makes the stream raise that error.
\<close>

theorem span_order_checked_by_validate_model_only:
  "(\<forall>t0 t1. start_time p = Some t0 \<and> end_time p = Some t1 \<and> t1 < t0 \<longrightarrow>
       validate_model p = Inl (ValueError ''start_time must be before end_time''))
   \<and> (\<forall>t0 t1. start_time p = Some t0 \<and> end_time p = Some t1 \<and> t0 < t1 \<longrightarrow>
       validate_model p = Inr p)
   \<and> (start_time p = None \<or> end_time p = None \<longrightarrow> validate_model p = Inr p)
   \<and> (\<not> not_stations p \<longrightarrow>
        gen (pull e a (new_pipeline p now)) = AwaitGet
        \<and> ChopperWaveforms (chopper_request e a p) \<in> set (io_log (pull e a (new_pipeline p now)))
        \<and> gen (run e a evs (new_pipeline p now)) \<noteq> Raised (ValueError ''start_time must be before end_time''))"
proof (intro conjI impI allI)
  assume pr: "\<not> not_stations p"
  show "gen (pull e a (new_pipeline p now)) = AwaitGet"
    using pr by (simp add: pull_def new_pipeline_def iter_batches_start_def Let_def)
  show "ChopperWaveforms (chopper_request e a p) \<in> set (io_log (pull e a (new_pipeline p now)))"
    using pr io_log_first_pull[of "new_pipeline p now" e a] by (simp add: new_pipeline_def)
  have "no_value_error (run e a evs (new_pipeline p now))"
    using pr by (intro run_no_value_error) (simp add: no_value_error_def new_pipeline_def)
  then show "gen (run e a evs (new_pipeline p now)) \<noteq> Raised (ValueError ''start_time must be before end_time'')"
    by (auto simp: no_value_error_def)
qed (auto simp: validate_model_def split: option.splits)

theorem span_order_checked_by_validate_model_only_witness:
  "validate_model ((ex_provider None 1)\<lparr>start_time := Some 9, end_time := Some 3\<rparr>)
     = Inl (ValueError ''start_time must be before end_time'')
   \<and> validate_model ((ex_provider None 1)\<lparr>start_time := Some 3, end_time := Some 9\<rparr>)
     = Inr ((ex_provider None 1)\<lparr>start_time := Some 3, end_time := Some 9\<rparr>)
   \<and> validate_model (ex_provider None 1) = Inr (ex_provider None 1)
   \<and> gen (pull (ex_env []) (ex_args (Some 9) (Some 3) None) (new_pipeline (ex_provider (Some ex_stations) 1) 0)) = AwaitGet"
  using span_order_checked_by_validate_model_only
          [of "(ex_provider None 1)\<lparr>start_time := Some 9, end_time := Some 3\<rparr>"]
        span_order_checked_by_validate_model_only
          [of "(ex_provider None 1)\<lparr>start_time := Some 3, end_time := Some 9\<rparr>"]
        span_order_checked_by_validate_model_only [of "ex_provider None 1"]
        span_order_checked_by_validate_model_only
          [of "ex_provider (Some ex_stations) 1" "ex_env []" "ex_args (Some 9) (Some 3) None" 0 "[]"]
  by (simp add: ex_provider_def ex_stations_def not_stations_def)

text \<open>C9 as stated fails: the caller gives a start after the end, nothing is raised, and
  the stream runs to its normal end.\<close>

theorem unordered_span_streams_counterexample:
  "\<not> resolved_start (ex_env []) (ex_args (Some 9000000) (Some 3000000) None) (ex_provider (Some ex_stations) 1)
       < resolved_end (ex_env []) (ex_args (Some 9000000) (Some 3000000) None) (ex_provider (Some ex_stations) 1)
   \<and> gen (run (ex_env []) (ex_args (Some 9000000) (Some 3000000) None) [Pull]
        (new_pipeline (ex_provider (Some ex_stations) 1) 0)) = AwaitGet
   \<and> gen (run (ex_env []) (ex_args (Some 9000000) (Some 3000000) None)
        [Pull, WakeProducer, WakeProducer, WakeConsumer]
        (new_pipeline (ex_provider (Some ex_stations) 1) 0)) = Exhausted"
  by (simp add: worker_defs start_defs body_defs event_defs ex_defs)

subsection \<open>The loop body\<close>

lemma total_seconds_zero: "total_seconds lt = 0 \<longleftrightarrow> lt = 0"
  by (simp add: total_seconds_def)

lemma loop_body_zero_load_time:
  "gen (loop_body e a 0 (Some pb) s) = Raised ZeroDivisionError
   \<and> yielded (loop_body e a 0 (Some pb) s) = yielded s
   \<and> empty_batches (stats (self (loop_body e a 0 (Some pb) s))) = empty_batches (stats (self s))
   \<and> short_batches (stats (self (loop_body e a 0 (Some pb) s))) = short_batches (stats (self s))"
  by (simp add: loop_body_def truediv_def total_seconds_def set_stats_def Let_def)

lemma loop_body_rate:
  "lt \<noteq> 0 \<Longrightarrow>
   bytes_per_seconds (stats (self (loop_body e a lt (Some pb) s))) =
     real (cumulative_bytes (to_batch e pb)) / total_seconds lt"
  by (simp add: loop_body_def truediv_def total_seconds_zero set_stats_def Let_def)

lemma loop_body_empty:
  "lt \<noteq> 0 \<Longrightarrow> is_empty (to_batch e pb) \<Longrightarrow>
   yielded (loop_body e a lt (Some pb) s) = yielded s
   \<and> empty_batches (stats (self (loop_body e a lt (Some pb) s))) = empty_batches (stats (self s)) + 1
   \<and> short_batches (stats (self (loop_body e a lt (Some pb) s))) = short_batches (stats (self s))
   \<and> gen (loop_body e a lt (Some pb) s) = AwaitGet"
  by (simp add: loop_body_def truediv_def total_seconds_zero set_stats_def Let_def)

lemma loop_body_short:
  "lt \<noteq> 0 \<Longrightarrow> \<not> is_empty (to_batch e pb) \<Longrightarrow> too_short (min_length a) (to_batch e pb) \<Longrightarrow>
   yielded (loop_body e a lt (Some pb) s) = yielded s
   \<and> short_batches (stats (self (loop_body e a lt (Some pb) s))) = short_batches (stats (self s)) + 1
   \<and> empty_batches (stats (self (loop_body e a lt (Some pb) s))) = empty_batches (stats (self s))
   \<and> gen (loop_body e a lt (Some pb) s) = AwaitGet"
  by (simp add: loop_body_def truediv_def total_seconds_zero set_stats_def Let_def)

lemma loop_body_good:
  "lt \<noteq> 0 \<Longrightarrow> \<not> is_empty (to_batch e pb) \<Longrightarrow> \<not> too_short (min_length a) (to_batch e pb) \<Longrightarrow>
   yielded (loop_body e a lt (Some pb) s) = yielded s @ [to_batch e pb]
   \<and> short_batches (stats (self (loop_body e a lt (Some pb) s))) = short_batches (stats (self s))
   \<and> empty_batches (stats (self (loop_body e a lt (Some pb) s))) = empty_batches (stats (self s))
   \<and> gen (loop_body e a lt (Some pb) s) = AtYield"
  by (simp add: loop_body_def truediv_def total_seconds_zero set_stats_def Let_def)


lemma loop_body_yielded:
  "yielded (loop_body e a lt item s) = yielded s \<or>
   (\<exists>pb. item = Some pb \<and> accepted a (to_batch e pb) \<and>
         yielded (loop_body e a lt item s) = yielded s @ [to_batch e pb])"
  by (cases item) (auto simp: loop_body_def set_stats_def Let_def accepted_def split: sum.splits)

lemma step_yielded:
  "yielded (step e a s ev) = yielded s \<or>
   (\<exists>b. accepted a b \<and> yielded (step e a s ev) = yielded s @ [b])"
proof (cases ev)
  case WakeConsumer
  have "\<And>p item rest. yielded (loop_body e a (load_time p) item (s\<lparr>prefetcher := Some (p\<lparr>queue := rest\<rparr>)\<rparr>)) = yielded s
     \<or> (\<exists>b. accepted a b \<and> yielded (loop_body e a (load_time p) item (s\<lparr>prefetcher := Some (p\<lparr>queue := rest\<rparr>)\<rparr>)) = yielded s @ [b])"
    subgoal for p item rest
      using loop_body_yielded[of e a "load_time p" item "s\<lparr>prefetcher := Some (p\<lparr>queue := rest\<rparr>)\<rparr>"]
      by auto
    done
  then show ?thesis using WakeConsumer
    by (simp add: wake_consumer_def split: option.splits list.splits)
qed (auto simp: wake_producer_def pull_def close_def iter_batches_start_def get_squirrel_def Let_def
       split: gen_state.splits option.splits)

lemma run_yielded_accepted:
  "\<forall>b \<in> set (yielded s). accepted a b \<Longrightarrow> \<forall>b \<in> set (yielded (run e a evs s)). accepted a b"
proof (induction evs arbitrary: s)
  case Nil
  then show ?case by (simp add: run_def)
next
  case (Cons ev evs)
  have "\<forall>b \<in> set (yielded (step e a s ev)). accepted a b"
    using step_yielded[of e a s ev] Cons.prems by auto
  from Cons.IH[OF this] show ?case by (simp add: run_def)
qed

text \<open>
  C6 (amended). Take a dequeued batch whose rate update does not raise (\<open>load_time\<close> is
  not zero) and which has traces left after cleaning, and a supplied \<open>min_length\<close> other
  than zero. If its duration is less than \<open>min_length\<close> it is not yielded and
  \<open>short_batches\<close> goes up by one; if its duration equals \<open>min_length\<close> it is yielded
  and \<open>short_batches\<close> stays. No stream ever yields a batch shorter than \<open>min_length\<close>.
\<close>

theorem short_batch_filtered_boundary_kept:
  assumes "lt \<noteq> 0" and "\<not> is_empty (to_batch e pb)" and "min_length a = Some m" and "m \<noteq> 0"
  shows "(duration (to_batch e pb) < m \<longrightarrow>
            yielded (loop_body e a lt (Some pb) s) = yielded s
            \<and> short_batches (stats (self (loop_body e a lt (Some pb) s))) = short_batches (stats (self s)) + 1
            \<and> gen (loop_body e a lt (Some pb) s) = AwaitGet)
       \<and> (duration (to_batch e pb) = m \<longrightarrow>
            yielded (loop_body e a lt (Some pb) s) = yielded s @ [to_batch e pb]
            \<and> short_batches (stats (self (loop_body e a lt (Some pb) s))) = short_batches (stats (self s))
            \<and> gen (loop_body e a lt (Some pb) s) = AtYield)
       \<and> (\<forall>b \<in> set (yielded (run e a evs (new_pipeline p t0))). \<not> duration b < m)"
proof (intro conjI impI)
  assume d: "duration (to_batch e pb) < m"
  then have "too_short (min_length a) (to_batch e pb)"
    using assms by (simp add: too_short_def)
  from loop_body_short[OF assms(1,2) this, of s]
  show "yielded (loop_body e a lt (Some pb) s) = yielded s"
   and "short_batches (stats (self (loop_body e a lt (Some pb) s))) = short_batches (stats (self s)) + 1"
   and "gen (loop_body e a lt (Some pb) s) = AwaitGet"
    by simp_all
next
  assume d: "duration (to_batch e pb) = m"
  then have "\<not> too_short (min_length a) (to_batch e pb)"
    using assms by (simp add: too_short_def)
  from loop_body_good[OF assms(1,2) this, of s]
  show "yielded (loop_body e a lt (Some pb) s) = yielded s @ [to_batch e pb]"
   and "short_batches (stats (self (loop_body e a lt (Some pb) s))) = short_batches (stats (self s))"
   and "gen (loop_body e a lt (Some pb) s) = AtYield"
    by simp_all
next
  have "\<forall>b \<in> set (yielded (run e a evs (new_pipeline p t0))). accepted a b"
    by (rule run_yielded_accepted) (simp add: new_pipeline_def)
  then show "\<forall>b \<in> set (yielded (run e a evs (new_pipeline p t0))). \<not> duration b < m"
    using assms by (auto simp: accepted_def too_short_def)
qed

theorem short_batch_filtered_boundary_kept_witness:
  "duration (to_batch (ex_env []) ex_short) = 5000000
   \<and> short_batches (stats (self (loop_body (ex_env []) (ex_args None None (Some 10000000)) 1000000
         (Some ex_short) (new_pipeline (ex_provider (Some ex_stations) 1) 0)))) = 1
   \<and> yielded (loop_body (ex_env []) (ex_args None None (Some 10000000)) 1000000
         (Some ex_short) (new_pipeline (ex_provider (Some ex_stations) 1) 0)) = []
   \<and> duration (to_batch (ex_env []) (ex_good 1)) = 10000000
   \<and> yielded (loop_body (ex_env []) (ex_args None None (Some 10000000)) 1000000
         (Some (ex_good 1)) (new_pipeline (ex_provider (Some ex_stations) 1) 0))
       = [to_batch (ex_env []) (ex_good 1)]
   \<and> yielded (ex_run [Yield ex_short, Yield (ex_good 1)] 2 (Some 10000000)
         [Pull, WakeProducer, Tick 1000000, WakeProducer, WakeConsumer,
          Tick 1000000, WakeProducer, WakeConsumer])
       = [to_batch (ex_env []) (ex_good 1)]"
  using short_batch_filtered_boundary_kept
          [of 1000000 "ex_env []" ex_short "ex_args None None (Some 10000000)" 10000000
              "new_pipeline (ex_provider (Some ex_stations) 1) 0"
              "[Pull, WakeProducer, Tick 1000000, WakeProducer, WakeConsumer,
                Tick 1000000, WakeProducer, WakeConsumer]"
              "ex_provider (Some ex_stations) 2" 0]
        short_batch_filtered_boundary_kept
          [of 1000000 "ex_env []" "ex_good 1" "ex_args None None (Some 10000000)" 10000000
              "new_pipeline (ex_provider (Some ex_stations) 1) 0" "[]"
              "ex_provider (Some ex_stations) 2" 0]
  by (simp add: worker_defs start_defs body_defs event_defs ex_defs)

text \<open>C6 as stated fails: a batch shorter than \<open>min_length\<close> that has no traces left
  after cleaning is counted as empty, and \<open>short_batches\<close> stays at zero.\<close>

theorem empty_short_batch_counted_empty_counterexample:
  "min_length (ex_args None None (Some 10000000)) = Some 10000000
   \<and> duration (to_batch (ex_env []) ex_empty) < 10000000
   \<and> is_empty (to_batch (ex_env []) ex_empty)
   \<and> map_option load_time (prefetcher (ex_run [Yield ex_empty] 1 (Some 10000000)
         [Pull, WakeProducer, Tick 1000000, WakeProducer])) = Some 1000000
   \<and> short_batches (stats (self (ex_run [Yield ex_empty] 1 (Some 10000000)
         [Pull, WakeProducer, Tick 1000000, WakeProducer, WakeConsumer]))) = 0
   \<and> empty_batches (stats (self (ex_run [Yield ex_empty] 1 (Some 10000000)
         [Pull, WakeProducer, Tick 1000000, WakeProducer, WakeConsumer]))) = 1"
  by (simp add: worker_defs start_defs body_defs event_defs ex_defs)

text \<open>
  C2. A fetch that completes at the clock reading at which it was awaited leaves
  \<open>load_time\<close> at zero. The rate computation then divides by \<open>0.0\<close>: the generator
  ends with \<open>ZeroDivisionError\<close>, the rate is not set and the batch is not yielded.
\<close>

theorem zero_load_time_rate_raises:
  "map_option load_time (prefetcher (ex_run [Yield (ex_good 0)] 1 None
         [Pull, Tick 5, WakeProducer, WakeProducer, Tick 7])) = Some 0
   \<and> gen (ex_run [Yield (ex_good 0)] 1 None
         [Pull, Tick 5, WakeProducer, WakeProducer, Tick 7, WakeConsumer])
       = Raised ZeroDivisionError
   \<and> bytes_per_seconds (stats (self (ex_run [Yield (ex_good 0)] 1 None
         [Pull, Tick 5, WakeProducer, WakeProducer, Tick 7, WakeConsumer]))) = 0
   \<and> yielded (ex_run [Yield (ex_good 0)] 1 None
         [Pull, Tick 5, WakeProducer, WakeProducer, Tick 7, WakeConsumer]) = []"
  by (simp add: worker_defs start_defs body_defs event_defs ex_defs)

text \<open>
  C7. With \<open>load_time\<close> at zero a batch without traces after cleaning is not counted:
  the division before the emptiness check raises, and \<open>empty_batches\<close> stays at zero.
  (With \<open>load_time\<close> other than zero the batch is dropped and counted once:
  \<open>loop_body_empty\<close>.)
\<close>

theorem empty_batch_uncounted_at_zero_load_time:
  "is_empty (to_batch (ex_env []) ex_empty)
   \<and> map_option load_time (prefetcher (ex_run [Yield ex_empty] 1 None
         [Pull, Tick 5, WakeProducer, WakeProducer, Tick 7])) = Some 0
   \<and> gen (ex_run [Yield ex_empty] 1 None
         [Pull, Tick 5, WakeProducer, WakeProducer, Tick 7, WakeConsumer])
       = Raised ZeroDivisionError
   \<and> empty_batches (stats (self (ex_run [Yield ex_empty] 1 None
         [Pull, Tick 5, WakeProducer, WakeProducer, Tick 7, WakeConsumer]))) = 0"
  by (simp add: worker_defs start_defs body_defs event_defs ex_defs)

subsection \<open>The load time\<close>

text \<open>The recorded \<open>load_time\<close> is the time the iterator took plus the time between the
  reading of \<open>start\<close> and the moment the worker began to wait for the iterator, which is
  the time it was suspended in \<open>queue.put\<close>.\<close>

lemma load_time_split:
  "task p = AwaitNext \<Longrightarrow> iterator p = Yield b # rest \<Longrightarrow>
   load_time (prefetch_worker now p) =
     fetch_latency (prefetch_worker now p) + (fetch_requested p - start p)"
  by (simp add: worker_defs)

text \<open>
  C3. Two runs over the same source of four batches with a queue of size one; the iterator
  delivers each batch one second after the worker asks for it. In the first run the caller
  takes the first batch and comes back for the next only after twelve seconds: the worker
  has fetched the second and third batch meanwhile and waited ten seconds in \<open>queue.put\<close>
  with the third, and the \<open>load_time\<close> recorded for the fourth fetch is eleven seconds,
  for a fetch of one second. In the second run the caller pulls at once each time and the
  \<open>load_time\<close> of the fourth fetch is one second.
\<close>

theorem load_time_includes_put_wait:
  "map_option load_time (prefetcher (ex_run ex_four 1 None
         [Pull, WakeProducer, Tick 1000000, WakeProducer, WakeConsumer,
          Tick 1000000, WakeProducer, Tick 1000000, WakeProducer,
          Tick 10000000, Pull, WakeConsumer, WakeProducer,
          Tick 1000000, WakeProducer]))
       = Some 11000000
   \<and> map_option fetch_latency (prefetcher (ex_run ex_four 1 None
         [Pull, WakeProducer, Tick 1000000, WakeProducer, WakeConsumer,
          Tick 1000000, WakeProducer, Tick 1000000, WakeProducer,
          Tick 10000000, Pull, WakeConsumer, WakeProducer,
          Tick 1000000, WakeProducer]))
       = Some 1000000
   \<and> map_option load_time (prefetcher (ex_run ex_four 1 None
         [Pull, WakeProducer, Tick 1000000, WakeProducer, WakeConsumer, Pull,
          Tick 1000000, WakeProducer, WakeConsumer, Pull,
          Tick 1000000, WakeProducer, WakeConsumer, Pull,
          Tick 1000000, WakeProducer]))
       = Some 1000000
   \<and> map_option fetch_latency (prefetcher (ex_run ex_four 1 None
         [Pull, WakeProducer, Tick 1000000, WakeProducer, WakeConsumer, Pull,
          Tick 1000000, WakeProducer, WakeConsumer, Pull,
          Tick 1000000, WakeProducer, WakeConsumer, Pull,
          Tick 1000000, WakeProducer]))
       = Some 1000000"
  by (simp add: worker_defs start_defs body_defs event_defs ex_defs)

subsection \<open>The worker and the queue\<close>

lemma outcome_yields: "outcome (map Yield bs @ rest) = map Some bs @ outcome rest"
  by (induction bs) simp_all

lemma outcome_exhausted: "outcome (map Yield bs) = map Some bs @ [None]"
  using outcome_yields[of bs "[]"] by simp

lemma outcome_raises: "outcome (map Yield bs @ Raise # rest) = map Some bs"
  by (simp add: outcome_yields)

lemma source_shape:
  "(\<exists>bs. src = map Yield bs) \<or> (\<exists>bs rest. src = map Yield bs @ Raise # rest)"
proof (induction src)
  case Nil
  then show ?case by simp
next
  case (Cons x src)
  show ?case
  proof (cases x)
    case (Yield b)
    from Cons.IH show ?thesis
    proof
      assume "\<exists>bs. src = map Yield bs"
      then obtain bs where "src = map Yield bs" ..
      then have "x # src = map Yield (b # bs)" using Yield by simp
      then show ?thesis by (intro disjI1 exI[of _ "b # bs"])
    next
      assume "\<exists>bs rest. src = map Yield bs @ Raise # rest"
      then obtain bs rest where "src = map Yield bs @ Raise # rest" by blast
      then have "x # src = map Yield (b # bs) @ Raise # rest" using Yield by simp
      then show ?thesis by (intro disjI2 exI[of _ "b # bs"] exI[of _ rest])
    qed
  next
    case Raise
    then have "x # src = map Yield [] @ Raise # src" by simp
    then show ?thesis by (intro disjI2 exI[of _ "[]"] exI[of _ src])
  qed
qed

lemma batches_of_append: "batches_of (xs @ ys) = batches_of xs @ batches_of ys"
  by (induction xs rule: batches_of.induct) simp_all

lemma batches_of_Some: "batches_of (map Some bs) = bs"
  by (induction bs) simp_all

lemma worker_trace_step: "worker_trace (prefetch_worker now p) = worker_trace p"
  by (auto simp: worker_trace_def pending_def to_come_def worker_defs
        split: task_state.splits list.splits src_event.splits option.splits)

lemma finished_step:
  "(task p = Finished \<longleftrightarrow> None \<in> set (put_log p)) \<Longrightarrow>
   (task (prefetch_worker now p) = Finished \<longleftrightarrow> None \<in> set (put_log (prefetch_worker now p)))"
  by (auto simp: worker_defs
        split: task_state.splits list.splits src_event.splits option.splits)

lemma worker_inv_step: "worker_inv src p \<Longrightarrow> worker_inv src (prefetch_worker now p)"
  unfolding worker_inv_def using worker_trace_step finished_step by simp

lemma worker_inv_dequeue: "worker_inv src p \<Longrightarrow> worker_inv src (p\<lparr>queue := rest\<rparr>)"
  by (simp add: worker_inv_def worker_trace_def pending_def to_come_def
        split: task_state.splits option.splits)

lemma worker_puts:
  "\<exists>items. put_log (prefetch_worker now p) = put_log p @ items \<and>
           queue (prefetch_worker now p) = queue p @ items"
  by (auto simp: worker_defs
        split: task_state.splits list.splits src_event.splits option.splits)

lemma loop_body_prefetcher: "prefetcher (loop_body e a lt item s) = prefetcher s"
  by (cases item) (auto simp: loop_body_def set_stats_def Let_def split: sum.splits)

lemma loop_body_gen:
  "gen (loop_body e a lt item s) \<noteq> NotStarted \<and>
   (gen (loop_body e a lt item s) = Exhausted \<longleftrightarrow> item = None)"
  by (cases item) (auto simp: loop_body_def set_stats_def Let_def split: sum.splits)

lemma chopper_request_get_squirrel:
  "chopper_request e a (self (get_squirrel s)) = chopper_request e a (self s)"
  by (simp add: get_squirrel_def chopper_request_def resolved_start_def resolved_end_def
        split: option.splits)

lemma consumer_inv_dequeue:
  assumes inv: "consumer_inv e s p" and q: "queue p = item # rest"
  shows "consumer_inv e (loop_body e a lt item (s\<lparr>prefetcher := Some (p\<lparr>queue := rest\<rparr>)\<rparr>))
           (p\<lparr>queue := rest\<rparr>)"
proof -
  let ?s0 = "s\<lparr>prefetcher := Some (p\<lparr>queue := rest\<rparr>)\<rparr>"
  let ?s' = "loop_body e a lt item ?s0"
  from inv obtain consumed where c: "put_log p = consumed @ queue p"
    and sub: "subseq (yielded s) (map (to_batch e) (batches_of consumed))"
    unfolding consumer_inv_def by blast
  have log: "put_log (p\<lparr>queue := rest\<rparr>) = (consumed @ [item]) @ queue (p\<lparr>queue := rest\<rparr>)"
    using c q by simp
  have sub': "subseq (yielded ?s') (map (to_batch e) (batches_of (consumed @ [item])))"
  proof -
    from loop_body_yielded[of e a lt item ?s0]
    consider "yielded ?s' = yielded s"
      | pb where "item = Some pb" "yielded ?s' = yielded s @ [to_batch e pb]"
      by auto
    then show ?thesis
    proof cases
      case 1
      have "subseq (yielded s) (map (to_batch e) (batches_of consumed) @ map (to_batch e) (batches_of [item]))"
        using sub by (rule list_emb_prefix)
      then show ?thesis using 1 by (simp add: batches_of_append)
    next
      case 2
      have "subseq (yielded s @ [to_batch e pb]) (map (to_batch e) (batches_of consumed) @ [to_batch e pb])"
        using sub by (intro list_emb_append_mono) simp_all
      then show ?thesis using 2 by (simp add: batches_of_append)
    qed
  qed
  have ex: "gen ?s' = Exhausted \<longrightarrow> None \<in> set (consumed @ [item])"
    using loop_body_gen[of e a lt item ?s0] by simp
  have ns: "gen ?s' \<noteq> NotStarted"
    using loop_body_gen[of e a lt item ?s0] by simp
  show ?thesis
    unfolding consumer_inv_def using log sub' ex ns by blast
qed

lemma consumer_inv_produce:
  assumes inv: "consumer_inv e s p"
  shows "consumer_inv e (s\<lparr>prefetcher := Some (prefetch_worker now p)\<rparr>) (prefetch_worker now p)"
proof -
  from inv obtain consumed where c: "put_log p = consumed @ queue p"
    and sub: "subseq (yielded s) (map (to_batch e) (batches_of consumed))"
    and ex: "gen s = Exhausted \<longrightarrow> None \<in> set consumed" and ns: "gen s \<noteq> NotStarted"
    unfolding consumer_inv_def by blast
  from worker_puts[of now p] obtain items where
    "put_log (prefetch_worker now p) = put_log p @ items"
    "queue (prefetch_worker now p) = queue p @ items" by blast
  then have "put_log (prefetch_worker now p) = consumed @ queue (prefetch_worker now p)"
    using c by simp
  then show ?thesis
    unfolding consumer_inv_def using sub ex ns by auto
qed

lemma stream_inv_step:
  assumes inv: "stream_inv e a src s"
  shows "stream_inv e a src (step e a s ev)"
proof (cases "prefetcher s")
  case None
  then have n: "yielded s = []" "gen s \<noteq> AwaitGet" "gen s \<noteq> AtYield" "gen s \<noteq> Exhausted"
    "gen s = NotStarted \<longrightarrow> chopper_waveforms_async e (chopper_request e a (self s)) = src"
    using inv by (simp_all add: stream_inv_def)
  show ?thesis
  proof (cases ev)
    case Pull
    show ?thesis
    proof (cases "gen s = NotStarted \<and> \<not> not_stations (self s)")
      case True
      let ?p = "SquirrelPrefetcher_init (chopper_waveforms_async e (chopper_request e a (self (get_squirrel s))))
                   (async_prefetch_batches (self (get_squirrel s)))"
      have pf: "prefetcher (step e a s ev) = Some ?p"
        and g: "gen (step e a s ev) = AwaitGet" and y: "yielded (step e a s ev) = []"
        using True Pull n(1)
        by (simp_all add: pull_def iter_batches_start_def Let_def get_squirrel_def)
      have "iterator ?p = src"
        using True n(5) by (simp add: chopper_request_get_squirrel SquirrelPrefetcher_init_def)
      then have w: "worker_inv src ?p"
        by (simp add: worker_inv_def worker_trace_def pending_def to_come_def SquirrelPrefetcher_init_def)
      have c: "consumer_inv e (step e a s ev) ?p"
        unfolding consumer_inv_def using g y
        by (intro conjI exI[of _ "[]"]) (simp_all add: SquirrelPrefetcher_init_def)
      show ?thesis using pf w c by (simp add: stream_inv_def)
    next
      case False
      then show ?thesis using Pull None n
        by (auto simp: stream_inv_def pull_def iter_batches_start_def split: gen_state.splits)
    qed
  qed (use None n in \<open>auto simp: stream_inv_def wake_producer_def wake_consumer_def close_def
                         split: gen_state.splits\<close>)
next
  case (Some p)
  then have w: "worker_inv src p" and c: "consumer_inv e s p"
    using inv by (simp_all add: stream_inv_def)
  have ns: "gen s \<noteq> NotStarted" using c by (simp add: consumer_inv_def)
  show ?thesis
  proof (cases ev)
    case (Tick d)
    then show ?thesis using Some w c by (simp add: stream_inv_def consumer_inv_def)
  next
    case WakeProducer
    then show ?thesis
      using Some worker_inv_step[OF w] consumer_inv_produce[OF c]
      by (simp add: stream_inv_def wake_producer_def)
  next
    case WakeConsumer
    show ?thesis
    proof (cases "gen s = AwaitGet \<and> queue p \<noteq> []")
      case True
      then obtain item rest where q: "queue p = item # rest" by (cases "queue p") auto
      let ?s' = "loop_body e a (load_time p) item (s\<lparr>prefetcher := Some (p\<lparr>queue := rest\<rparr>)\<rparr>)"
      have st: "step e a s ev = ?s'"
        using WakeConsumer True Some q by (simp add: wake_consumer_def)
      have pf: "prefetcher ?s' = Some (p\<lparr>queue := rest\<rparr>)"
        by (simp add: loop_body_prefetcher)
      show ?thesis
        unfolding st stream_inv_def pf
        using worker_inv_dequeue[OF w] consumer_inv_dequeue[OF c q] by simp
    next
      case False
      then have "step e a s ev = s"
        using WakeConsumer Some by (auto simp: wake_consumer_def split: list.splits)
      then show ?thesis using inv by simp
    qed
  next
    case Pull
    then show ?thesis using Some w c ns
      by (auto simp: stream_inv_def pull_def consumer_inv_def split: gen_state.splits)
  next
    case Close
    then show ?thesis using Some w c ns
      by (auto simp: stream_inv_def close_def consumer_inv_def split: gen_state.splits)
  qed
qed

lemma stream_inv_run: "stream_inv e a src s \<Longrightarrow> stream_inv e a src (run e a evs s)"
  by (induction evs arbitrary: s) (simp_all add: run_def stream_inv_step)

lemma stream_inv_new:
  "stream_inv e a (chopper_waveforms_async e (chopper_request e a p)) (new_pipeline p t0)"
  by (simp add: stream_inv_def new_pipeline_def)

lemma run_append: "run e a (evs @ evs') s = run e a evs' (run e a evs s)"
  by (simp add: run_def)

lemma put_log_prefix:
  assumes "worker_inv src pf"
  shows "prefix (put_log pf) (outcome src)"
proof -
  have "outcome src = put_log pf @ (pending pf @ to_come pf)"
    using assms by (simp add: worker_inv_def worker_trace_def)
  then show ?thesis by (rule prefixI)
qed

lemma put_log_ended:
  assumes "worker_inv src pf" and "task pf = Finished \<or> task pf = Crashed"
  shows "put_log pf = outcome src"
  using assms by (auto simp: worker_inv_def worker_trace_def pending_def to_come_def)

lemma worker_done: "task pf = Finished \<or> task pf = Crashed \<Longrightarrow> prefetch_worker now pf = pf"
  by (auto simp: prefetch_worker_def)

lemma worker_puts_terminator:
  "iterator pf = [] \<Longrightarrow> \<not> full pf \<Longrightarrow> task pf = AwaitNext \<or> task pf = AwaitPut None \<Longrightarrow>
   put_log (prefetch_worker now pf) = put_log pf @ [None] \<and>
   queue (prefetch_worker now pf) = queue pf @ [None] \<and>
   task (prefetch_worker now pf) = Finished"
  by (auto simp: worker_defs)

lemma queue_is_log_step:
  assumes "ev \<noteq> WakeConsumer"
    and "\<forall>pf. prefetcher s = Some pf \<longrightarrow> queue pf = put_log pf"
  shows "\<forall>pf. prefetcher (step e a s ev) = Some pf \<longrightarrow> queue pf = put_log pf"
proof (cases ev)
  case WakeProducer
  show ?thesis
  proof (cases "prefetcher s")
    case None
    then show ?thesis using WakeProducer by (simp add: wake_producer_def)
  next
    case (Some p)
    then have eq: "queue p = put_log p" using assms(2) by simp
    from worker_puts[of "clock s" p] obtain items where
      "put_log (prefetch_worker (clock s) p) = put_log p @ items"
      "queue (prefetch_worker (clock s) p) = queue p @ items" by blast
    then have "queue (prefetch_worker (clock s) p) = put_log (prefetch_worker (clock s) p)"
      using eq by simp
    then show ?thesis using WakeProducer Some by (simp add: wake_producer_def)
  qed
next
  case Pull
  then show ?thesis using assms(2)
    by (auto simp: pull_def iter_batches_start_def get_squirrel_def Let_def
          SquirrelPrefetcher_init_def split: gen_state.splits)
next
  case Close
  then show ?thesis using assms(2) by (auto simp: close_def split: gen_state.splits)
next
  case (Tick d)
  then show ?thesis using assms(2) by simp
next
  case WakeConsumer
  then show ?thesis using assms(1) by simp
qed

lemma queue_is_log_run:
  assumes "WakeConsumer \<notin> set evs"
    and "\<forall>pf. prefetcher s = Some pf \<longrightarrow> queue pf = put_log pf"
  shows "\<forall>pf. prefetcher (run e a evs s) = Some pf \<longrightarrow> queue pf = put_log pf"
  using assms
proof (induction evs arbitrary: s)
  case Nil
  then show ?case by (simp add: run_def)
next
  case (Cons ev evs)
  have "ev \<noteq> WakeConsumer" and rest: "WakeConsumer \<notin> set evs" using Cons.prems(1) by auto
  from queue_is_log_step[OF this(1) Cons.prems(2), of e a]
  have "\<forall>pf. prefetcher (step e a s ev) = Some pf \<longrightarrow> queue pf = put_log pf" .
  from Cons.IH[OF rest this] show ?case by (simp add: run_def)
qed

lemma worker_waits_on_full_queue:
  "full pf \<Longrightarrow> task pf = AwaitPut item \<Longrightarrow> prefetch_worker now pf = pf"
  by (simp add: prefetch_worker_def)

text \<open>
  C5 (amended). In every state a stream can reach, what the worker has put is an initial
  part of: the source's batches in order, then one terminator if the source ends without
  raising; and the queue holds exactly the items put that the generator has not taken (all
  of them while the generator has taken none). So a terminator is never in the queue before
  any batch or twice, and nothing follows it. When the source ends normally the worker has
  returned exactly when all batches and the terminator are in, and it never crashes. When
  the source raises, no terminator is ever put or in the queue and the worker never returns
  normally; once it has crashed, the batches before the failure are all that was put.
  Every resumption of the worker appends the same items to the queue as to its history. A
  worker that has seen the source end puts the terminator into the queue and returns as
  soon as it runs with a free slot; on a full queue it stays suspended in \<open>queue.put\<close>
  holding the terminator. A worker that has returned or crashed does nothing more.
\<close>

theorem terminator_only_after_exhaustion:
  assumes "prefetcher (run e a evs (new_pipeline p t0)) = Some pf"
  shows "(\<forall>bs. chopper_waveforms_async e (chopper_request e a p) = map Yield bs \<longrightarrow>
            prefix (put_log pf) (map Some bs @ [None])
            \<and> (task pf = Finished \<longleftrightarrow> put_log pf = map Some bs @ [None])
            \<and> task pf \<noteq> Crashed)
       \<and> (\<forall>bs rest. chopper_waveforms_async e (chopper_request e a p) = map Yield bs @ Raise # rest \<longrightarrow>
            prefix (put_log pf) (map Some bs)
            \<and> None \<notin> set (put_log pf)
            \<and> None \<notin> set (queue pf)
            \<and> task pf \<noteq> Finished
            \<and> (task pf = Crashed \<longrightarrow> put_log pf = map Some bs))
       \<and> (\<exists>taken. put_log pf = taken @ queue pf)
       \<and> (WakeConsumer \<notin> set evs \<longrightarrow> queue pf = put_log pf)
       \<and> (\<exists>items. put_log (prefetch_worker now pf) = put_log pf @ items
                  \<and> queue (prefetch_worker now pf) = queue pf @ items)
       \<and> (iterator pf = [] \<and> \<not> full pf \<and> (task pf = AwaitNext \<or> task pf = AwaitPut None) \<longrightarrow>
            put_log (prefetch_worker now pf) = put_log pf @ [None]
            \<and> queue (prefetch_worker now pf) = queue pf @ [None]
            \<and> task (prefetch_worker now pf) = Finished)
       \<and> (full pf \<and> task pf = AwaitPut None \<longrightarrow> prefetch_worker now pf = pf)
       \<and> (task pf = Finished \<or> task pf = Crashed \<longrightarrow> prefetch_worker now pf = pf)"
proof -
  let ?src = "chopper_waveforms_async e (chopper_request e a p)"
  have inv: "stream_inv e a ?src (run e a evs (new_pipeline p t0))"
    by (intro stream_inv_run stream_inv_new)
  then have w: "worker_inv ?src pf" and c: "consumer_inv e (run e a evs (new_pipeline p t0)) pf"
    using assms by (simp_all add: stream_inv_def)
  have fin: "task pf = Finished \<longleftrightarrow> None \<in> set (put_log pf)"
    using w by (simp add: worker_inv_def)
  from c obtain taken where taken: "put_log pf = taken @ queue pf"
    unfolding consumer_inv_def by blast
  have exhausted: "prefix (put_log pf) (map Some bs @ [None])
            \<and> (task pf = Finished \<longleftrightarrow> put_log pf = map Some bs @ [None])
            \<and> task pf \<noteq> Crashed" if src: "?src = map Yield bs" for bs
  proof -
    have out: "outcome ?src = map Some bs @ [None]"
      using src by (simp add: outcome_exhausted)
    have 1: "prefix (put_log pf) (map Some bs @ [None])"
      using put_log_prefix[OF w] out by simp
    have 2: "task pf = Finished \<longleftrightarrow> put_log pf = map Some bs @ [None]"
    proof
      assume "task pf = Finished"
      then show "put_log pf = map Some bs @ [None]"
        using put_log_ended[OF w] out by simp
    next
      assume "put_log pf = map Some bs @ [None]"
      then show "task pf = Finished" using fin by simp
    qed
    have 3: "task pf \<noteq> Crashed"
    proof
      assume "task pf = Crashed"
      then have "put_log pf = map Some bs @ [None]"
        using put_log_ended[OF w] out by simp
      then have "task pf = Finished" using 2 by simp
      then show False using \<open>task pf = Crashed\<close> by simp
    qed
    show ?thesis using 1 2 3 by blast
  qed
  have raised: "prefix (put_log pf) (map Some bs)
            \<and> None \<notin> set (put_log pf)
            \<and> None \<notin> set (queue pf)
            \<and> task pf \<noteq> Finished
            \<and> (task pf = Crashed \<longrightarrow> put_log pf = map Some bs)"
    if src: "?src = map Yield bs @ Raise # rest" for bs rest
  proof -
    have out: "outcome ?src = map Some bs"
      using src by (simp add: outcome_raises)
    have 1: "prefix (put_log pf) (map Some bs)"
      using put_log_prefix[OF w] out by simp
    then have "set (put_log pf) \<subseteq> set (map Some bs)"
      by (rule set_mono_prefix)
    then have 2: "None \<notin> set (put_log pf)" by auto
    then have nq: "None \<notin> set (queue pf)" using taken by simp
    have 3: "task pf \<noteq> Finished" using 2 fin by simp
    have 4: "task pf = Crashed \<longrightarrow> put_log pf = map Some bs"
      using put_log_ended[OF w] out by simp
    show ?thesis using 1 2 nq 3 4 by blast
  qed
  have tk: "\<exists>taken. put_log pf = taken @ queue pf" using taken by blast
  have nocons: "WakeConsumer \<notin> set evs \<longrightarrow> queue pf = put_log pf"
  proof
    assume "WakeConsumer \<notin> set evs"
    from queue_is_log_run[OF this, of "new_pipeline p t0" e a] assms
    show "queue pf = put_log pf" by (simp add: new_pipeline_def)
  qed
  have blockedT: "full pf \<and> task pf = AwaitPut None \<longrightarrow> prefetch_worker now pf = pf"
    using worker_waits_on_full_queue[of pf None now] by blast
  show ?thesis
    using exhausted raised tk nocons worker_puts[of now pf] worker_puts_terminator[of pf now]
      blockedT worker_done[of pf now]
    by blast
qed

theorem terminator_only_after_exhaustion_witness:
  "map_option put_log (prefetcher (ex_run ex_two 3 None
         [Pull, WakeProducer, Tick 1000000, WakeProducer, Tick 1000000, WakeProducer, WakeProducer]))
       = Some (map Some [ex_good 0, ex_good 1] @ [None])
   \<and> map_option queue (prefetcher (ex_run ex_two 3 None
         [Pull, WakeProducer, Tick 1000000, WakeProducer, Tick 1000000, WakeProducer, WakeProducer]))
       = Some (map Some [ex_good 0, ex_good 1] @ [None])
   \<and> map_option task (prefetcher (ex_run ex_two 3 None
         [Pull, WakeProducer, Tick 1000000, WakeProducer, Tick 1000000, WakeProducer, WakeProducer]))
       = Some Finished
   \<and> map_option put_log (prefetcher (ex_run [Yield (ex_good 0), Raise] 3 None
         [Pull, WakeProducer, Tick 1000000, WakeProducer, Tick 1000000, WakeProducer, WakeProducer]))
       = Some (map Some [ex_good 0])
   \<and> map_option task (prefetcher (ex_run [Yield (ex_good 0), Raise] 3 None
         [Pull, WakeProducer, Tick 1000000, WakeProducer, Tick 1000000, WakeProducer, WakeProducer]))
       = Some Crashed
   \<and> map_option task (map_option (prefetch_worker 2000000) (prefetcher (ex_run ex_two 3 None
         [Pull, WakeProducer, Tick 1000000, WakeProducer, Tick 1000000, WakeProducer])))
       = Some Finished
   \<and> map_option (prefetch_worker 63000000) (prefetcher (ex_run ex_two 1 None
         [Pull, WakeProducer, Tick 1000000, WakeProducer, WakeConsumer, Close,
          Tick 1000000, WakeProducer, Tick 1000000, WakeProducer]))
       = prefetcher (ex_run ex_two 1 None
         [Pull, WakeProducer, Tick 1000000, WakeProducer, WakeConsumer, Close,
          Tick 1000000, WakeProducer, Tick 1000000, WakeProducer])"
proof -
  let ?b0 = "ex_good 0" and ?b1 = "ex_good 1"
  let ?a = "ex_args None None None"
  let ?evs = "[Pull, WakeProducer, Tick 1000000, WakeProducer, Tick 1000000, WakeProducer, WakeProducer]"
  let ?evs4 = "[Pull, WakeProducer, Tick 1000000, WakeProducer, Tick 1000000, WakeProducer]"
  let ?evs3 = "[Pull, WakeProducer, Tick 1000000, WakeProducer, WakeConsumer, Close,
          Tick 1000000, WakeProducer, Tick 1000000, WakeProducer]"
  let ?s1 = "run (ex_env ex_two) ?a ?evs (new_pipeline (ex_provider (Some ex_stations) 3) 0)"
  let ?s2 = "run (ex_env [Yield ?b0, Raise]) ?a ?evs (new_pipeline (ex_provider (Some ex_stations) 3) 0)"
  let ?s3 = "run (ex_env ex_two) ?a ?evs3 (new_pipeline (ex_provider (Some ex_stations) 1) 0)"
  let ?s4 = "run (ex_env ex_two) ?a ?evs4 (new_pipeline (ex_provider (Some ex_stations) 3) 0)"
  have p1: "prefetcher ?s1 = Some (the (prefetcher ?s1))"
    by (simp add: worker_defs start_defs event_defs ex_defs)
  have p2: "prefetcher ?s2 = Some (the (prefetcher ?s2))"
    by (simp add: worker_defs start_defs event_defs ex_defs)
  have p3: "prefetcher ?s3 = Some (the (prefetcher ?s3))"
    by (simp add: worker_defs start_defs body_defs event_defs ex_defs)
  have p4: "prefetcher ?s4 = Some (the (prefetcher ?s4))"
    by (simp add: worker_defs start_defs event_defs ex_defs)
  have src1: "chopper_waveforms_async (ex_env ex_two)
      (chopper_request (ex_env ex_two) ?a (ex_provider (Some ex_stations) 3))
      = map Yield [?b0, ?b1]"
    by (simp add: ex_env_def ex_two_def)
  have src2: "chopper_waveforms_async (ex_env [Yield ?b0, Raise])
      (chopper_request (ex_env [Yield ?b0, Raise]) ?a (ex_provider (Some ex_stations) 3))
      = map Yield [?b0] @ Raise # []"
    by (simp add: ex_env_def)
  have t1: "task (the (prefetcher ?s1)) = Finished"
    by (simp add: worker_defs start_defs event_defs ex_defs)
  have t2: "task (the (prefetcher ?s2)) = Crashed"
    by (simp add: worker_defs start_defs event_defs ex_defs)
  have nc: "WakeConsumer \<notin> set ?evs" by simp
  have h3: "full (the (prefetcher ?s3)) \<and> task (the (prefetcher ?s3)) = AwaitPut None"
    by (simp add: worker_defs start_defs body_defs event_defs ex_defs)
  have h4: "iterator (the (prefetcher ?s4)) = [] \<and> \<not> full (the (prefetcher ?s4))
            \<and> task (the (prefetcher ?s4)) = AwaitNext"
    by (simp add: worker_defs start_defs event_defs ex_defs)
  from terminator_only_after_exhaustion[OF p1, of 0] src1 t1
  have a: "put_log (the (prefetcher ?s1)) = map Some [?b0, ?b1] @ [None]"
    by blast
  from terminator_only_after_exhaustion[OF p1, of 0] nc a
  have q: "queue (the (prefetcher ?s1)) = map Some [?b0, ?b1] @ [None]"
    by simp
  from terminator_only_after_exhaustion[OF p2, of 0] src2 t2
  have b: "put_log (the (prefetcher ?s2)) = map Some [?b0]"
    by blast
  from terminator_only_after_exhaustion[OF p3, of 63000000] h3
  have m3: "prefetch_worker 63000000 (the (prefetcher ?s3)) = the (prefetcher ?s3)"
    by blast
  from terminator_only_after_exhaustion[OF p4, of 2000000] h4
  have f4: "task (prefetch_worker 2000000 (the (prefetcher ?s4))) = Finished"
    by blast
  have a': "map_option put_log (prefetcher ?s1) = Some (map Some [?b0, ?b1] @ [None])"
    by (subst p1) (simp only: option.map a)
  have q': "map_option queue (prefetcher ?s1) = Some (map Some [?b0, ?b1] @ [None])"
    by (subst p1) (simp only: option.map q)
  have t1': "map_option task (prefetcher ?s1) = Some Finished"
    by (subst p1) (simp only: option.map t1)
  have b': "map_option put_log (prefetcher ?s2) = Some (map Some [?b0])"
    by (subst p2) (simp only: option.map b)
  have t2': "map_option task (prefetcher ?s2) = Some Crashed"
    by (subst p2) (simp only: option.map t2)
  have f4': "map_option task (map_option (prefetch_worker 2000000) (prefetcher ?s4)) = Some Finished"
    by (subst p4) (simp only: option.map f4)
  have "map_option (prefetch_worker 63000000) (Some (the (prefetcher ?s3))) = Some (the (prefetcher ?s3))"
    by (simp only: option.map m3)
  then have m3': "map_option (prefetch_worker 63000000) (prefetcher ?s3) = prefetcher ?s3"
    by (simp only: p3[symmetric])
  show ?thesis
    unfolding ex_run_def by (intro conjI) (rule a' q' t1' b' t2' f4' m3')+
qed

text \<open>C5 as stated fails: a source of two batches ends normally, the queue has size one
  and the caller closes the generator after the first batch. The worker puts the second
  batch, sees the source end, and is suspended in \<open>queue.put(None)\<close> on the full queue:
  a minute later no terminator has been enqueued.\<close>

theorem terminator_waits_on_full_queue_counterexample:
  "chopper_waveforms_async (ex_env ex_two)
      (chopper_request (ex_env ex_two) (ex_args None None None) (ex_provider (Some ex_stations) 1))
     = [Yield (ex_good 0), Yield (ex_good 1)]
   \<and> gen (ex_run ex_two 1 None
         [Pull, WakeProducer, Tick 1000000, WakeProducer, WakeConsumer, Close,
          Tick 1000000, WakeProducer, Tick 1000000, WakeProducer,
          Tick 60000000, WakeProducer]) = Closed
   \<and> map_option iterator (prefetcher (ex_run ex_two 1 None
         [Pull, WakeProducer, Tick 1000000, WakeProducer, WakeConsumer, Close,
          Tick 1000000, WakeProducer, Tick 1000000, WakeProducer,
          Tick 60000000, WakeProducer])) = Some []
   \<and> map_option task (prefetcher (ex_run ex_two 1 None
         [Pull, WakeProducer, Tick 1000000, WakeProducer, WakeConsumer, Close,
          Tick 1000000, WakeProducer, Tick 1000000, WakeProducer,
          Tick 60000000, WakeProducer])) = Some (AwaitPut None)
   \<and> map_option queue (prefetcher (ex_run ex_two 1 None
         [Pull, WakeProducer, Tick 1000000, WakeProducer, WakeConsumer, Close,
          Tick 1000000, WakeProducer, Tick 1000000, WakeProducer,
          Tick 60000000, WakeProducer])) = Some [Some (ex_good 1)]
   \<and> map_option put_log (prefetcher (ex_run ex_two 1 None
         [Pull, WakeProducer, Tick 1000000, WakeProducer, WakeConsumer, Close,
          Tick 1000000, WakeProducer, Tick 1000000, WakeProducer,
          Tick 60000000, WakeProducer])) = Some [Some (ex_good 0), Some (ex_good 1)]"
  by (simp add: worker_defs start_defs body_defs event_defs ex_defs)

subsection \<open>A source that raises\<close>

lemma stalled_step: "stalled s \<Longrightarrow> stalled (step e a s ev)"
  by (cases ev)
     (auto simp: stalled_def wake_producer_def wake_consumer_def pull_def close_def prefetch_worker_def
           split: option.splits gen_state.splits)

lemma stalled_run: "stalled s \<Longrightarrow> stalled (run e a evs s)"
  by (induction evs arbitrary: s) (simp_all add: run_def stalled_step)

lemma subseq_prefix_batches:
  assumes "prefix (consumed @ rest) (map Some bs)"
  shows "subseq (map f (batches_of consumed)) (map f bs)"
proof -
  from assms obtain zs where "map Some bs = consumed @ rest @ zs"
    by (auto simp: prefix_def)
  then have "batches_of (map Some bs) = batches_of consumed @ batches_of (rest @ zs)"
    by (simp add: batches_of_append)
  then have "bs = batches_of consumed @ batches_of (rest @ zs)"
    by (simp add: batches_of_Some)
  then have "prefix (batches_of consumed) bs" by (rule prefixI)
  then have "subseq (batches_of consumed) bs" by (rule prefix_imp_subseq)
  then show ?thesis by (rule subseq_map)
qed

text \<open>
  C1 (amended). When the source raises after some batches, the stream never ends as if the
  source were exhausted, and what it yields is a subsequence, in order, of the batches the
  source produced before it raised. Nothing surfaces the failure: once the worker has
  crashed and the queue is drained, the generator stays suspended in \<open>queue.get()\<close> on
  every further event, until its caller closes it.
\<close>

theorem source_failure_stalls_stream:
  assumes "chopper_waveforms_async e (chopper_request e a p) = map Yield bs @ Raise # rest"
  shows "gen (run e a evs (new_pipeline p t0)) \<noteq> Exhausted
       \<and> subseq (yielded (run e a evs (new_pipeline p t0))) (map (to_batch e) bs)
       \<and> (stalled (run e a evs (new_pipeline p t0)) \<longrightarrow>
            gen (run e a (evs @ evs') (new_pipeline p t0)) = AwaitGet
            \<or> gen (run e a (evs @ evs') (new_pipeline p t0)) = Closed)"
proof -
  let ?src = "chopper_waveforms_async e (chopper_request e a p)"
  let ?s = "run e a evs (new_pipeline p t0)"
  have inv: "stream_inv e a ?src ?s"
    by (intro stream_inv_run stream_inv_new)
  have out: "outcome ?src = map Some bs"
    using assms by (simp add: outcome_raises)
  have 1: "gen ?s \<noteq> Exhausted \<and> subseq (yielded ?s) (map (to_batch e) bs)"
  proof (cases "prefetcher ?s")
    case None
    then show ?thesis using inv by (simp add: stream_inv_def)
  next
    case (Some pf)
    then have w: "worker_inv ?src pf" and c: "consumer_inv e ?s pf"
      using inv by (simp_all add: stream_inv_def)
    from c obtain consumed where log: "put_log pf = consumed @ queue pf"
      and sub: "subseq (yielded ?s) (map (to_batch e) (batches_of consumed))"
      and ex: "gen ?s = Exhausted \<longrightarrow> None \<in> set consumed"
      unfolding consumer_inv_def by blast
    have pre: "prefix (consumed @ queue pf) (map Some bs)"
      using put_log_prefix[OF w] out log by simp
    then have "set (consumed @ queue pf) \<subseteq> set (map Some bs)"
      by (rule set_mono_prefix)
    then have "None \<notin> set consumed" by auto
    then have a: "gen ?s \<noteq> Exhausted" using ex by blast
    have "subseq (map (to_batch e) (batches_of consumed)) (map (to_batch e) bs)"
      using pre by (rule subseq_prefix_batches)
    then have b: "subseq (yielded ?s) (map (to_batch e) bs)"
      using sub by (rule subseq_order.trans[rotated])
    show ?thesis using a b by simp
  qed
  have 2: "stalled ?s \<longrightarrow> gen (run e a (evs @ evs') (new_pipeline p t0)) = AwaitGet
            \<or> gen (run e a (evs @ evs') (new_pipeline p t0)) = Closed"
  proof
    assume "stalled ?s"
    then have "stalled (run e a evs' ?s)" by (rule stalled_run)
    then show "gen (run e a (evs @ evs') (new_pipeline p t0)) = AwaitGet
            \<or> gen (run e a (evs @ evs') (new_pipeline p t0)) = Closed"
      by (simp add: run_append stalled_def)
  qed
  show ?thesis using 1 2 by simp
qed

theorem source_failure_stalls_stream_witness:
  "chopper_waveforms_async (ex_env [Yield (ex_good 0), Raise])
      (chopper_request (ex_env [Yield (ex_good 0), Raise]) (ex_args None None None)
         (ex_provider (Some ex_stations) 1))
     = map Yield [ex_good 0] @ Raise # []
   \<and> stalled (ex_run [Yield (ex_good 0), Raise] 1 None
         [Pull, WakeProducer, Tick 1000000, WakeProducer, WakeConsumer,
          Tick 1000000, WakeProducer, Pull])
   \<and> gen (ex_run [Yield (ex_good 0), Raise] 1 None
         ([Pull, WakeProducer, Tick 1000000, WakeProducer, WakeConsumer,
           Tick 1000000, WakeProducer, Pull]
          @ [WakeConsumer, Tick 60000000, WakeProducer, Pull, WakeConsumer])) = AwaitGet
   \<and> yielded (ex_run [Yield (ex_good 0), Raise] 1 None
         [Pull, WakeProducer, Tick 1000000, WakeProducer, WakeConsumer,
          Tick 1000000, WakeProducer, Pull])
       = [to_batch (ex_env []) (ex_good 0)]"
  using source_failure_stalls_stream
     [of "ex_env [Yield (ex_good 0), Raise]" "ex_args None None None"
         "ex_provider (Some ex_stations) 1" "[ex_good 0]" "[]"
         "[Pull, WakeProducer, Tick 1000000, WakeProducer, WakeConsumer,
           Tick 1000000, WakeProducer, Pull]"
         0 "[WakeConsumer, Tick 60000000, WakeProducer, Pull, WakeConsumer]"]
  by (simp add: worker_defs start_defs body_defs event_defs ex_defs stalled_def)

text \<open>C1 as stated fails: the source yields one batch and raises. The stream yields the
  batch; on the next pull, a minute and several resumptions later, the worker has crashed
  and the generator is still waiting in \<open>queue.get()\<close>: no failure has reached the
  caller.\<close>

theorem source_failure_not_surfaced_counterexample:
  "yielded (ex_run [Yield (ex_good 0), Raise] 1 None
         [Pull, WakeProducer, Tick 1000000, WakeProducer, WakeConsumer, Tick 1000000,
          WakeProducer, Pull, WakeConsumer, Tick 60000000, WakeProducer, WakeConsumer])
       = [to_batch (ex_env []) (ex_good 0)]
   \<and> map_option task (prefetcher (ex_run [Yield (ex_good 0), Raise] 1 None
         [Pull, WakeProducer, Tick 1000000, WakeProducer, WakeConsumer, Tick 1000000,
          WakeProducer, Pull, WakeConsumer, Tick 60000000, WakeProducer, WakeConsumer]))
       = Some Crashed
   \<and> gen (ex_run [Yield (ex_good 0), Raise] 1 None
         [Pull, WakeProducer, Tick 1000000, WakeProducer, WakeConsumer, Tick 1000000,
          WakeProducer, Pull, WakeConsumer, Tick 60000000, WakeProducer, WakeConsumer])
       = AwaitGet"
  by (simp add: worker_defs start_defs body_defs event_defs ex_defs)

subsection \<open>Closing the generator\<close>

lemma abandoned_step: "abandoned pf s \<Longrightarrow> abandoned pf (step e a s ev)"
proof (cases ev)
  case WakeProducer
  assume ab: "abandoned pf s"
  then obtain pf' where pf': "prefetcher s = Some pf'" and pre: "prefix (queue pf) (queue pf')"
    and g: "gen s = Closed"
    by (auto simp: abandoned_def split: option.splits)
  from worker_puts[of "clock s" pf'] obtain items where
    "queue (prefetch_worker (clock s) pf') = queue pf' @ items" by blast
  then have "prefix (queue pf) (queue (prefetch_worker (clock s) pf'))"
    using pre by (simp add: prefix_prefix)
  then show ?thesis
    using WakeProducer pf' g by (simp add: abandoned_def wake_producer_def)
qed (auto simp: abandoned_def wake_consumer_def pull_def close_def split: option.splits)

lemma abandoned_run: "abandoned pf s \<Longrightarrow> abandoned pf (run e a evs s)"
  by (induction evs arbitrary: s) (simp_all add: run_def abandoned_step)

lemma blocked_step:
  "gen s = Closed \<Longrightarrow> prefetcher s = Some pf \<Longrightarrow> blocked pf \<Longrightarrow>
   gen (step e a s ev) = Closed \<and> prefetcher (step e a s ev) = Some pf"
  by (cases ev)
     (auto simp: blocked_def wake_producer_def wake_consumer_def pull_def close_def prefetch_worker_def
           split: task_state.splits)

lemma blocked_run:
  "gen s = Closed \<Longrightarrow> prefetcher s = Some pf \<Longrightarrow> blocked pf \<Longrightarrow>
   gen (run e a evs s) = Closed \<and> prefetcher (run e a evs s) = Some pf"
proof (induction evs arbitrary: s)
  case Nil
  then show ?case by (simp add: run_def)
next
  case (Cons ev evs)
  from blocked_step[OF Cons.prems, of e a ev]
  have "gen (step e a s ev) = Closed" "prefetcher (step e a s ev) = Some pf" by simp_all
  from Cons.IH[OF this Cons.prems(3)] show ?case by (simp add: run_def)
qed

text \<open>
  C10 (amended). Closing the generator (or cancelling the task that iterates it) ends the
  generator and nothing else: the worker task is neither cancelled nor told. It runs on
  whenever the event loop resumes it, the queue is never drained again, and a worker that is
  suspended in \<open>queue.put\<close> on a full queue stays suspended there on every further
  event.
\<close>

theorem close_leaves_worker_running:
  assumes "prefetcher s = Some pf" and "gen s = AwaitGet \<or> gen s = AtYield"
  shows "close s = s\<lparr>gen := Closed\<rparr>
       \<and> step e a (close s) WakeProducer =
           s\<lparr>gen := Closed, prefetcher := Some (prefetch_worker (clock s) pf)\<rparr>
       \<and> gen (run e a evs (close s)) = Closed
       \<and> (\<exists>pf'. prefetcher (run e a evs (close s)) = Some pf' \<and> prefix (queue pf) (queue pf'))
       \<and> (blocked pf \<longrightarrow> prefetcher (run e a evs (close s)) = Some pf)"
proof -
  have c: "close s = s\<lparr>gen := Closed\<rparr>"
    using assms(2) by (auto simp: close_def)
  have w: "step e a (close s) WakeProducer =
           s\<lparr>gen := Closed, prefetcher := Some (prefetch_worker (clock s) pf)\<rparr>"
    using assms(1) by (simp add: c wake_producer_def)
  have "abandoned pf (close s)"
    using assms(1) by (simp add: c abandoned_def)
  then have ab: "abandoned pf (run e a evs (close s))" by (rule abandoned_run)
  then have g: "gen (run e a evs (close s)) = Closed"
    and q: "\<exists>pf'. prefetcher (run e a evs (close s)) = Some pf' \<and> prefix (queue pf) (queue pf')"
    by (auto simp: abandoned_def split: option.splits)
  have b: "blocked pf \<longrightarrow> prefetcher (run e a evs (close s)) = Some pf"
  proof
    assume "blocked pf"
    with blocked_run[of "close s" pf e a evs] assms(1) show "prefetcher (run e a evs (close s)) = Some pf"
      by (simp add: c)
  qed
  show ?thesis using c w g q b by blast
qed

theorem close_leaves_worker_running_witness:
  "gen (ex_run ex_three 1 None
         [Pull, WakeProducer, Tick 1000000, WakeProducer, WakeConsumer,
          Tick 1000000, WakeProducer, Tick 1000000, WakeProducer]) = AtYield
   \<and> map_option blocked (prefetcher (ex_run ex_three 1 None
         [Pull, WakeProducer, Tick 1000000, WakeProducer, WakeConsumer,
          Tick 1000000, WakeProducer, Tick 1000000, WakeProducer])) = Some True
   \<and> prefetcher (run (ex_env ex_three) (ex_args None None None)
         [Tick 5000000, WakeProducer, WakeConsumer, Pull, WakeProducer]
         (close (ex_run ex_three 1 None
            [Pull, WakeProducer, Tick 1000000, WakeProducer, WakeConsumer,
             Tick 1000000, WakeProducer, Tick 1000000, WakeProducer])))
       = prefetcher (ex_run ex_three 1 None
            [Pull, WakeProducer, Tick 1000000, WakeProducer, WakeConsumer,
             Tick 1000000, WakeProducer, Tick 1000000, WakeProducer])"
proof -
  let ?e = "ex_env ex_three"
  let ?s = "run ?e (ex_args None None None)
        [Pull, WakeProducer, Tick 1000000, WakeProducer, WakeConsumer, Tick 1000000, WakeProducer,
         Tick 1000000, WakeProducer]
        (new_pipeline (ex_provider (Some ex_stations) 1) 0)"
  have p: "prefetcher ?s = Some (the (prefetcher ?s))"
    by (simp add: worker_defs start_defs body_defs event_defs ex_defs)
  have g: "gen ?s = AtYield"
    by (simp add: worker_defs start_defs body_defs event_defs ex_defs)
  have b: "blocked (the (prefetcher ?s))"
    by (simp add: worker_defs start_defs body_defs event_defs ex_defs blocked_def)
  from close_leaves_worker_running[OF p, of ?e "ex_args None None None"
         "[Tick 5000000, WakeProducer, WakeConsumer, Pull, WakeProducer]"] g b
  have m: "prefetcher (run ?e (ex_args None None None)
          [Tick 5000000, WakeProducer, WakeConsumer, Pull, WakeProducer] (close ?s))
        = Some (the (prefetcher ?s))"
    by blast
  have b': "map_option blocked (prefetcher ?s) = Some True"
    by (subst p) (simp only: option.map b)
  show ?thesis
    unfolding ex_run_def
  proof (intro conjI)
    show "gen ?s = AtYield" by (rule g)
    show "map_option blocked (prefetcher ?s) = Some True" by (rule b')
    show "prefetcher (run ?e (ex_args None None None)
          [Tick 5000000, WakeProducer, WakeConsumer, Pull, WakeProducer] (close ?s)) = prefetcher ?s"
      by (rule trans[OF m p[symmetric]])
  qed
qed

text \<open>C10 as stated fails: the caller closes the generator after the first batch. The
  worker goes on to fetch the second and the third batch and is then suspended in
  \<open>queue.put\<close>, holding the third, on the full queue nobody reads.\<close>

theorem producer_survives_cancel_counterexample:
  "gen (ex_run ex_three 1 None
         [Pull, WakeProducer, Tick 1000000, WakeProducer, WakeConsumer]) = AtYield
   \<and> map_option fetched_batches (prefetcher (ex_run ex_three 1 None
         [Pull, WakeProducer, Tick 1000000, WakeProducer, WakeConsumer, Close])) = Some 1
   \<and> gen (ex_run ex_three 1 None
         [Pull, WakeProducer, Tick 1000000, WakeProducer, WakeConsumer, Close,
          Tick 1000000, WakeProducer, Tick 1000000, WakeProducer,
          Tick 60000000, WakeProducer]) = Closed
   \<and> map_option fetched_batches (prefetcher (ex_run ex_three 1 None
         [Pull, WakeProducer, Tick 1000000, WakeProducer, WakeConsumer, Close,
          Tick 1000000, WakeProducer, Tick 1000000, WakeProducer,
          Tick 60000000, WakeProducer])) = Some 3
   \<and> map_option task (prefetcher (ex_run ex_three 1 None
         [Pull, WakeProducer, Tick 1000000, WakeProducer, WakeConsumer, Close,
          Tick 1000000, WakeProducer, Tick 1000000, WakeProducer,
          Tick 60000000, WakeProducer])) = Some (AwaitPut (Some (ex_good 2)))"
  by (simp add: worker_defs start_defs body_defs event_defs ex_defs)

end
